theory Spec2Isabelle
  imports Complex_Main "HOL-Library.Word"
begin

unbundle bit_operations_syntax

section \<open>The ULoRa driver for the SX127x (src/ulora/core.py)\<close>

text \<open>
  The driver talks to the radio chip through \<open>transfer\<close>: one SPI transaction that
  sends an address byte and a data byte and clocks one response byte in. The chip is not
  part of the repository, so nothing is assumed about it: the field \<open>spi\<close> of the driver
  state gives, for the n-th transaction of the run, the byte the chip answers, and every
  theorem holds for every such answer function. \<open>bus_log\<close> records what the driver
  sent: one pair (address byte, data byte) per transaction, oldest first. Chip select is
  lowered before and raised after each transaction and is folded into the log entry.

  Python integers are \<open>int\<close>; \<open>&\<close>, \<open>|\<close>, \<open><<\<close>, \<open>>>\<close> are \<open>AND\<close>, \<open>OR\<close>,
  \<open>push_bit\<close>, \<open>drop_bit\<close> on \<open>int\<close> (two's complement, as in Python). A byte read
  from the bus is an \<open>8 word\<close>; \<open>int.from_bytes\<close> is \<open>uint\<close>. The bandwidth is a
  Python number (the default is the float \<open>125e3\<close>) and is modelled as a \<open>real\<close>.
\<close>

subsection \<open>Register and mode constants\<close>

definition REG_FIFO :: int where "REG_FIFO = 0x00"
definition REG_OP_MODE :: int where "REG_OP_MODE = 0x01"
definition REG_FRF_MSB :: int where "REG_FRF_MSB = 0x06"
definition REG_FRF_MID :: int where "REG_FRF_MID = 0x07"
definition REG_FRF_LSB :: int where "REG_FRF_LSB = 0x08"
definition REG_PA_CONFIG :: int where "REG_PA_CONFIG = 0x09"
definition REG_LNA :: int where "REG_LNA = 0x0C"
definition REG_FIFO_ADDR_PTR :: int where "REG_FIFO_ADDR_PTR = 0x0D"
definition REG_FIFO_TX_BASE_ADDR :: int where "REG_FIFO_TX_BASE_ADDR = 0x0E"
definition REG_FIFO_RX_BASE_ADDR :: int where "REG_FIFO_RX_BASE_ADDR = 0x0F"
definition REG_IRQ_FLAGS :: int where "REG_IRQ_FLAGS = 0x12"
definition REG_MODEM_CONFIG_1 :: int where "REG_MODEM_CONFIG_1 = 0x1D"
definition REG_MODEM_CONFIG_2 :: int where "REG_MODEM_CONFIG_2 = 0x1E"
definition REG_PREAMBLE_MSB :: int where "REG_PREAMBLE_MSB = 0x20"
definition REG_PREAMBLE_LSB :: int where "REG_PREAMBLE_LSB = 0x21"
definition REG_PAYLOAD_LENGTH :: int where "REG_PAYLOAD_LENGTH = 0x22"
definition REG_MODEM_CONFIG_3 :: int where "REG_MODEM_CONFIG_3 = 0x26"
definition REG_DETECTION_OPTIMIZE :: int where "REG_DETECTION_OPTIMIZE = 0x31"
definition REG_DETECTION_THRESHOLD :: int where "REG_DETECTION_THRESHOLD = 0x37"
definition REG_SYNC_WORD :: int where "REG_SYNC_WORD = 0x39"
definition REG_VERSION :: int where "REG_VERSION = 0x42"
definition REG_INVERTIQ :: int where "REG_INVERTIQ = 0x33"
definition REG_INVERTIQ2 :: int where "REG_INVERTIQ2 = 0x3B"

definition MODE_LONG_RANGE_MODE :: int where "MODE_LONG_RANGE_MODE = 0x80"
definition MODE_SLEEP :: int where "MODE_SLEEP = 0x00"
definition MODE_STDBY :: int where "MODE_STDBY = 0x01"
definition MODE_RX_CONTINUOUS :: int where "MODE_RX_CONTINUOUS = 0x05"
definition MODE_RX_SINGLE :: int where "MODE_RX_SINGLE = 0x06"

definition PA_OUTPUT_RFO_PIN :: int where "PA_OUTPUT_RFO_PIN = 0"
definition PA_OUTPUT_PA_BOOST_PIN :: int where "PA_OUTPUT_PA_BOOST_PIN = 0x01"
definition PA_BOOST :: int where "PA_BOOST = 0x80"

definition IRQ_PAYLOAD_CRC_ERROR_MASK :: int where "IRQ_PAYLOAD_CRC_ERROR_MASK = 0x20"
definition IRQ_RX_DONE_MASK :: int where "IRQ_RX_DONE_MASK = 0x40"
definition IRQ_RX_TIME_OUT_MASK :: int where "IRQ_RX_TIME_OUT_MASK = 0x80"

definition RFLR_INVERTIQ_RX_MASK :: int where "RFLR_INVERTIQ_RX_MASK = 0xBF"
definition RFLR_INVERTIQ_RX_OFF :: int where "RFLR_INVERTIQ_RX_OFF = 0x00"
definition RFLR_INVERTIQ_RX_ON :: int where "RFLR_INVERTIQ_RX_ON = 0x40"
definition RFLR_INVERTIQ_TX_MASK :: int where "RFLR_INVERTIQ_TX_MASK = 0xFE"
definition RFLR_INVERTIQ_TX_OFF :: int where "RFLR_INVERTIQ_TX_OFF = 0x01"
definition RFLR_INVERTIQ_TX_ON :: int where "RFLR_INVERTIQ_TX_ON = 0x00"
definition RFLR_INVERTIQ2_ON :: int where "RFLR_INVERTIQ2_ON = 0x19"
definition RFLR_INVERTIQ2_OFF :: int where "RFLR_INVERTIQ2_OFF = 0x1D"

definition MAX_PKT_LENGTH :: int where "MAX_PKT_LENGTH = 255"
definition FifoTxBaseAddr :: int where "FifoTxBaseAddr = 0x00"
definition FifoRxBaseAddr :: int where "FifoRxBaseAddr = 0x00"

lemmas ulora_consts =
  REG_FIFO_def REG_OP_MODE_def REG_FRF_MSB_def REG_FRF_MID_def REG_FRF_LSB_def
  REG_PA_CONFIG_def REG_LNA_def REG_FIFO_ADDR_PTR_def REG_FIFO_TX_BASE_ADDR_def
  REG_FIFO_RX_BASE_ADDR_def REG_IRQ_FLAGS_def REG_MODEM_CONFIG_1_def
  REG_MODEM_CONFIG_2_def REG_PREAMBLE_MSB_def REG_PREAMBLE_LSB_def
  REG_PAYLOAD_LENGTH_def REG_MODEM_CONFIG_3_def REG_DETECTION_OPTIMIZE_def
  REG_DETECTION_THRESHOLD_def REG_SYNC_WORD_def REG_VERSION_def REG_INVERTIQ_def
  REG_INVERTIQ2_def MODE_LONG_RANGE_MODE_def MODE_SLEEP_def MODE_STDBY_def
  MODE_RX_CONTINUOUS_def MODE_RX_SINGLE_def PA_OUTPUT_RFO_PIN_def
  PA_OUTPUT_PA_BOOST_PIN_def PA_BOOST_def IRQ_PAYLOAD_CRC_ERROR_MASK_def
  IRQ_RX_DONE_MASK_def IRQ_RX_TIME_OUT_MASK_def RFLR_INVERTIQ_RX_MASK_def
  RFLR_INVERTIQ_RX_OFF_def RFLR_INVERTIQ_RX_ON_def RFLR_INVERTIQ_TX_MASK_def
  RFLR_INVERTIQ_TX_OFF_def RFLR_INVERTIQ_TX_ON_def RFLR_INVERTIQ2_ON_def
  RFLR_INVERTIQ2_OFF_def MAX_PKT_LENGTH_def FifoTxBaseAddr_def FifoRxBaseAddr_def

subsection \<open>Parameters and driver state\<close>

record params =
  frequency :: int
  frequency_offset :: int
  tx_power_level :: int
  signal_bandwidth :: real
  spreading_factor :: int
  coding_rate :: int
  preamble_length :: int
  implicitHeader :: bool
  sync_word :: int
  enable_CRC :: bool
  invert_IQ :: bool

definition DEFAULT_PARAMETERS :: params where
  "DEFAULT_PARAMETERS =
     \<lparr>frequency = 433000000, frequency_offset = 0, tx_power_level = 10,
      signal_bandwidth = 125000, spreading_factor = 9, coding_rate = 5,
      preamble_length = 8, implicitHeader = False, sync_word = 0x12,
      enable_CRC = True, invert_IQ = False\<rparr>"

text \<open>What the reset pin and the clock are asked to do (\<open>reset_module\<close>).\<close>

datatype gpio_event = ResetPin nat | SleepMs nat

text \<open>
  \<open>implicit_header_mode\<close> is the cache of the header mode: \<open>None\<close> is Python's
  \<open>None\<close> (not yet written), as set by the constructor.
\<close>

record ulora =
  spi :: "nat \<Rightarrow> 8 word"
  bus_log :: "(int \<times> int) list"
  gpio_log :: "gpio_event list"
  pin_reset :: bool
  lock :: bool
  implicit_header_mode :: "bool option"
  parameters :: params

text \<open>
  Exceptions and the host restart are values. \<open>ValueError\<close> is what \<open>bytes([v])\<close>
  raises for \<open>v\<close> outside 0..255; \<open>ZeroDivisionError\<close> and \<open>OverflowError\<close> are
  what the float expression of the low-data-rate test can raise; \<open>MachineReset\<close> is
  \<open>machine.reset()\<close>, which does not return.
\<close>

datatype error = ValueError | ZeroDivisionError | OverflowError | MachineReset

type_synonym 'a result = "error + ('a \<times> ulora)"

definition bindE :: "'a result \<Rightarrow> ('a \<Rightarrow> ulora \<Rightarrow> 'b result) \<Rightarrow> 'b result" where
  "bindE m f = (case m of Inl e \<Rightarrow> Inl e | Inr (x, s) \<Rightarrow> f x s)"

text \<open>The value a call returns, without the state.\<close>

definition returned :: "'a result \<Rightarrow> error + 'a" where
  "returned m = (case m of Inl e \<Rightarrow> Inl e | Inr (x, s) \<Rightarrow> Inr x)"

subsection \<open>Low-level SPI methods\<close>

text \<open>
  \<open>transfer\<close>: \<open>bytes([address])\<close> and \<open>bytes([value])\<close> raise \<open>ValueError\<close>
  outside 0..255. The response is the answer of the chip to this transaction.
\<close>

definition transfer :: "ulora \<Rightarrow> int \<Rightarrow> int \<Rightarrow> (8 word) result" where
  "transfer s address val =
     (if \<not> (0 \<le> address \<and> address < 256) then Inl ValueError
      else if \<not> (0 \<le> val \<and> val < 256) then Inl ValueError
      else Inr (spi s (length (bus_log s)),
                s\<lparr>bus_log := bus_log s @ [(address, val)]\<rparr>))"

definition read_register :: "ulora \<Rightarrow> int \<Rightarrow> int result" where
  "read_register s address =
     bindE (transfer s (address AND 0x7F) 0x00) (\<lambda>response s'. Inr (uint response, s'))"

definition write_register :: "ulora \<Rightarrow> int \<Rightarrow> int \<Rightarrow> unit result" where
  "write_register s address val =
     bindE (transfer s (address OR 0x80) val) (\<lambda>response s'. Inr ((), s'))"

subsection \<open>Module modes and reset\<close>

definition reset_module :: "ulora \<Rightarrow> ulora" where
  "reset_module s =
     (if \<not> pin_reset s then s
      else s\<lparr>gpio_log := gpio_log s @ [ResetPin 0, SleepMs 100, ResetPin 1, SleepMs 100]\<rparr>)"

definition standby :: "ulora \<Rightarrow> unit result" where
  "standby s = write_register s REG_OP_MODE (MODE_LONG_RANGE_MODE OR MODE_STDBY)"

definition sleep :: "ulora \<Rightarrow> unit result" where
  "sleep s = write_register s REG_OP_MODE (MODE_LONG_RANGE_MODE OR MODE_SLEEP)"

subsection \<open>Configuration methods\<close>

text \<open>
  Arguments whose Python name is also a field of \<open>params\<close> or a HOL constant are
  renamed: \<open>freq\<close> for \<open>frequency\<close>, \<open>sf0\<close> for the unclamped \<open>sf\<close>, \<open>denom\<close> for
  \<open>denominator\<close>, \<open>len\<close> for \<open>length\<close>, \<open>sz\<close> for \<open>size\<close>.
\<close>

definition set_tx_power :: "ulora \<Rightarrow> int \<Rightarrow> int \<Rightarrow> unit result" where
  "set_tx_power s level output_pin =
     (let s1 = s\<lparr>parameters := (parameters s)\<lparr>tx_power_level := level\<rparr>\<rparr> in
      if output_pin = PA_OUTPUT_RFO_PIN then
        write_register s1 REG_PA_CONFIG (0x70 OR min (max level 0) 14)
      else
        write_register s1 REG_PA_CONFIG (PA_BOOST OR (min (max level 2) 17 - 2)))"

definition set_frequency :: "ulora \<Rightarrow> int \<Rightarrow> unit result" where
  "set_frequency s freq =
     (let s1 = s\<lparr>parameters := (parameters s)\<lparr>frequency := freq\<rparr>\<rparr>;
          freq' = freq + frequency_offset (parameters s1);
          frf = push_bit 19 freq' div 32000000
      in bindE (write_register s1 REG_FRF_MSB (drop_bit 16 frf AND 0xFF)) (\<lambda>_ s2.
         bindE (write_register s2 REG_FRF_MID (drop_bit 8 frf AND 0xFF)) (\<lambda>_ s3.
         write_register s3 REG_FRF_LSB (frf AND 0xFF))))"

definition set_spreading_factor :: "ulora \<Rightarrow> int \<Rightarrow> unit result" where
  "set_spreading_factor s sf0 =
     (let sf = min (max sf0 6) 12
      in bindE (if sf = 6 then
                  bindE (write_register s REG_DETECTION_OPTIMIZE 0xC5) (\<lambda>_ s1.
                  write_register s1 REG_DETECTION_THRESHOLD 0x0C)
                else
                  bindE (write_register s REG_DETECTION_OPTIMIZE 0xC3) (\<lambda>_ s1.
                  write_register s1 REG_DETECTION_THRESHOLD 0x0A)) (\<lambda>_ s2.
         bindE (read_register s2 REG_MODEM_CONFIG_2) (\<lambda>r s3.
         let current = r AND 0x0F
         in write_register s3 REG_MODEM_CONFIG_2 (current OR (push_bit 4 sf AND 0xF0)))))"

text \<open>
  \<open>set_signal_bandwidth\<close>: \<open>bins_loop\<close> is the \<open>for i, bw in enumerate(bins)\<close> loop with
  its \<open>break\<close>; \<open>py_int\<close> is Python's \<open>int()\<close> on a number (truncation towards zero);
  \<open>bw_index_of\<close> is the value of the local \<open>bw_index\<close> when the register is written.
\<close>

definition bins :: "int list" where
  "bins = [7800, 10400, 15600, 20800, 31250, 41700, 62500, 125000, 250000]"

fun bins_loop :: "real \<Rightarrow> int \<Rightarrow> int list \<Rightarrow> int \<Rightarrow> int" where
  "bins_loop sbw i [] bw_index = bw_index"
| "bins_loop sbw i (bw # rest) bw_index =
     (if sbw \<le> of_int bw then i else bins_loop sbw (i + 1) rest bw_index)"

definition py_int :: "real \<Rightarrow> int" where
  "py_int x = (if 0 \<le> x then \<lfloor>x\<rfloor> else \<lceil>x\<rceil>)"

definition bw_index_of :: "real \<Rightarrow> int" where
  "bw_index_of sbw = (if sbw < 10 then py_int sbw else bins_loop sbw 0 bins 7)"

definition set_signal_bandwidth :: "ulora \<Rightarrow> real \<Rightarrow> unit result" where
  "set_signal_bandwidth s sbw =
     (let bw_index = bw_index_of sbw
      in bindE (read_register s REG_MODEM_CONFIG_1) (\<lambda>r s1.
         let current = r AND 0x0F
         in write_register s1 REG_MODEM_CONFIG_1 (current OR push_bit 4 bw_index)))"

definition set_coding_rate :: "ulora \<Rightarrow> int \<Rightarrow> unit result" where
  "set_coding_rate s denom =
     (let denominator = min (max denom 5) 8;
          cr = denominator - 4
      in bindE (read_register s REG_MODEM_CONFIG_1) (\<lambda>r s1.
         let current = r AND 0xF1
         in write_register s1 REG_MODEM_CONFIG_1 (current OR push_bit 1 cr)))"

definition set_preamble_length :: "ulora \<Rightarrow> int \<Rightarrow> unit result" where
  "set_preamble_length s len =
     bindE (write_register s REG_PREAMBLE_MSB (drop_bit 8 len AND 0xFF)) (\<lambda>_ s1.
     write_register s1 REG_PREAMBLE_LSB (len AND 0xFF))"

definition enable_crc :: "ulora \<Rightarrow> bool \<Rightarrow> unit result" where
  "enable_crc s enable =
     bindE (read_register s REG_MODEM_CONFIG_2) (\<lambda>modem_config_2 s1.
     write_register s1 REG_MODEM_CONFIG_2
       (if enable then modem_config_2 OR 0x04 else modem_config_2 AND 0xFB))"

definition invert_iq :: "ulora \<Rightarrow> bool \<Rightarrow> unit result" where
  "invert_iq s invert =
     (let s0 = s\<lparr>parameters := (parameters s)\<lparr>invert_IQ := invert\<rparr>\<rparr>
      in bindE (read_register s0 REG_INVERTIQ) (\<lambda>current s1.
         if invert then
           bindE (write_register s1 REG_INVERTIQ
                    (((current AND RFLR_INVERTIQ_TX_MASK AND RFLR_INVERTIQ_RX_MASK)
                       OR RFLR_INVERTIQ_RX_ON) OR RFLR_INVERTIQ_TX_ON)) (\<lambda>_ s2.
           write_register s2 REG_INVERTIQ2 RFLR_INVERTIQ2_ON)
         else
           bindE (write_register s1 REG_INVERTIQ
                    (((current AND RFLR_INVERTIQ_TX_MASK AND RFLR_INVERTIQ_RX_MASK)
                       OR RFLR_INVERTIQ_RX_OFF) OR RFLR_INVERTIQ_TX_OFF)) (\<lambda>_ s2.
           write_register s2 REG_INVERTIQ2 RFLR_INVERTIQ2_OFF)))"

definition set_sync_word :: "ulora \<Rightarrow> int \<Rightarrow> unit result" where
  "set_sync_word s sw = write_register s REG_SYNC_WORD sw"

definition set_implicit_header :: "ulora \<Rightarrow> bool \<Rightarrow> unit result" where
  "set_implicit_header s implicit =
     (if implicit_header_mode s \<noteq> Some implicit then
        bindE (read_register (s\<lparr>implicit_header_mode := Some implicit\<rparr>) REG_MODEM_CONFIG_1)
          (\<lambda>modem_config_1 s1.
             write_register s1 REG_MODEM_CONFIG_1
               (if implicit then modem_config_1 OR 0x01 else modem_config_1 AND 0xFE))
      else Inr ((), s))"

subsection \<open>Packet transmission\<close>

definition begin_packet :: "ulora \<Rightarrow> bool option \<Rightarrow> unit result" where
  "begin_packet s implicit_header =
     bindE (standby s) (\<lambda>_ s1.
     bindE (case implicit_header of None \<Rightarrow> Inr ((), s1)
            | Some h \<Rightarrow> set_implicit_header s1 h) (\<lambda>_ s2.
     bindE (write_register s2 REG_FIFO_ADDR_PTR FifoTxBaseAddr) (\<lambda>_ s3.
     write_register s3 REG_PAYLOAD_LENGTH 0)))"

text \<open>\<open>write_fifo\<close> is the loop \<open>for byte in buffer: self.write_register(REG_FIFO, byte)\<close>.\<close>

fun write_fifo :: "ulora \<Rightarrow> 8 word list \<Rightarrow> unit result" where
  "write_fifo s [] = Inr ((), s)"
| "write_fifo s (byte # rest) =
     bindE (write_register s REG_FIFO (uint byte)) (\<lambda>_ s'. write_fifo s' rest)"

text \<open>\<open>write\<close> of the source (the name is reserved in Isabelle).\<close>

definition write_buf :: "ulora \<Rightarrow> 8 word list \<Rightarrow> int result" where
  "write_buf s buffer =
     bindE (read_register s REG_PAYLOAD_LENGTH) (\<lambda>current_length s1.
     let sz = min (int (length buffer)) (MAX_PKT_LENGTH - FifoTxBaseAddr - current_length)
     in bindE (write_fifo s1 buffer) (\<lambda>_ s2.
        bindE (write_register s2 REG_PAYLOAD_LENGTH (current_length + sz)) (\<lambda>_ s3.
        Inr (sz, s3))))"

subsection \<open>Packet reception\<close>


definition get_irq_flags :: "ulora \<Rightarrow> int result" where
  "get_irq_flags s =
     bindE (read_register s REG_IRQ_FLAGS) (\<lambda>irq_flags s1.
     bindE (write_register s1 REG_IRQ_FLAGS irq_flags) (\<lambda>_ s2.
     Inr (irq_flags, s2)))"

definition received_packet :: "ulora \<Rightarrow> int \<Rightarrow> bool result" where
  "received_packet s sz =
     bindE (get_irq_flags s) (\<lambda>irq_flags s1.
     bindE (set_implicit_header s1 (sz > 0)) (\<lambda>_ s2.
     bindE (if sz > 0 then write_register s2 REG_PAYLOAD_LENGTH (sz AND 0xFF)
            else Inr ((), s2)) (\<lambda>_ s3.
     if irq_flags = IRQ_RX_DONE_MASK then Inr (True, s3)
     else
       bindE (read_register s3 REG_OP_MODE) (\<lambda>op_mode s4.
       if op_mode \<noteq> (MODE_LONG_RANGE_MODE OR MODE_RX_SINGLE) then
         bindE (write_register s4 REG_FIFO_ADDR_PTR FifoRxBaseAddr) (\<lambda>_ s5.
         bindE (write_register s5 REG_OP_MODE (MODE_LONG_RANGE_MODE OR MODE_RX_SINGLE))
           (\<lambda>_ s6. Inr (False, s6)))
       else Inr (False, s4)))))"

subsection \<open>Construction\<close>

text \<open>
  The optional \<open>parameters\<close> dictionary of the constructor: each key is present
  (\<open>Some\<close>) or absent; \<open>update_parameters\<close> is \<open>DEFAULT_PARAMETERS.copy()\<close> followed by
  \<open>update(parameters)\<close>.
\<close>

record overrides =
  o_frequency :: "int option"
  o_frequency_offset :: "int option"
  o_tx_power_level :: "int option"
  o_signal_bandwidth :: "real option"
  o_spreading_factor :: "int option"
  o_coding_rate :: "int option"
  o_preamble_length :: "int option"
  o_implicitHeader :: "bool option"
  o_sync_word :: "int option"
  o_enable_CRC :: "bool option"
  o_invert_IQ :: "bool option"

definition no_overrides :: overrides where
  "no_overrides =
     \<lparr>o_frequency = None, o_frequency_offset = None, o_tx_power_level = None,
      o_signal_bandwidth = None, o_spreading_factor = None, o_coding_rate = None,
      o_preamble_length = None, o_implicitHeader = None, o_sync_word = None,
      o_enable_CRC = None, o_invert_IQ = None\<rparr>"

definition pick :: "'a option \<Rightarrow> 'a \<Rightarrow> 'a" where
  "pick ov d = (case ov of None \<Rightarrow> d | Some v \<Rightarrow> v)"

definition update_parameters :: "overrides \<Rightarrow> params" where
  "update_parameters ov =
     \<lparr>frequency = pick (o_frequency ov) (frequency DEFAULT_PARAMETERS),
      frequency_offset = pick (o_frequency_offset ov) (frequency_offset DEFAULT_PARAMETERS),
      tx_power_level = pick (o_tx_power_level ov) (tx_power_level DEFAULT_PARAMETERS),
      signal_bandwidth = pick (o_signal_bandwidth ov) (signal_bandwidth DEFAULT_PARAMETERS),
      spreading_factor = pick (o_spreading_factor ov) (spreading_factor DEFAULT_PARAMETERS),
      coding_rate = pick (o_coding_rate ov) (coding_rate DEFAULT_PARAMETERS),
      preamble_length = pick (o_preamble_length ov) (preamble_length DEFAULT_PARAMETERS),
      implicitHeader = pick (o_implicitHeader ov) (implicitHeader DEFAULT_PARAMETERS),
      sync_word = pick (o_sync_word ov) (sync_word DEFAULT_PARAMETERS),
      enable_CRC = pick (o_enable_CRC ov) (enable_CRC DEFAULT_PARAMETERS),
      invert_IQ = pick (o_invert_IQ ov) (invert_IQ DEFAULT_PARAMETERS)\<rparr>"

text \<open>
  The state of the object when the constructor reaches the version check: the bus
  untouched, the reset pulse done if the pin map has a \<open>reset\<close> entry, the header cache
  \<open>None\<close>.
\<close>

definition init_state :: "(nat \<Rightarrow> 8 word) \<Rightarrow> bool \<Rightarrow> overrides \<Rightarrow> ulora" where
  "init_state bus has_reset ov =
     reset_module
       \<lparr>spi = bus, bus_log = [], gpio_log = [], pin_reset = has_reset, lock = False,
        implicit_header_mode = None, parameters = update_parameters ov\<rparr>"

text \<open>
  \<open>version_loop n version s\<close> is the loop \<open>for _ in range(5)\<close> with \<open>n\<close> iterations
  left and the current value of the local \<open>version\<close> (\<open>None\<close> before the first read);
  \<open>if version: break\<close> leaves at the first nonzero byte.
\<close>

fun version_loop :: "nat \<Rightarrow> int option \<Rightarrow> ulora \<Rightarrow> (int option) result" where
  "version_loop 0 version s = Inr (version, s)"
| "version_loop (Suc n) version s =
     bindE (read_register s REG_VERSION) (\<lambda>v s1.
     if v \<noteq> 0 then Inr (Some v, s1) else version_loop n (Some v) s1)"

text \<open>
  The low-data-rate test at the end of the constructor is the float expression
  \<open>(1000 / bw / (2 ** sf)) > 16\<close> on the raw values of the parameter table. Floating
  point belongs to the host, not to the repository, and differs between hosts (64-bit
  floats in CPython, 32-bit floats in most MicroPython ports): the expression can be true
  or false, or raise \<open>OverflowError\<close> (in CPython for \<open>sf \<ge> 1024\<close>) or
  \<open>ZeroDivisionError\<close> (in CPython for \<open>sf \<le> -1075\<close>, where \<open>2 ** sf\<close> is \<open>0.0\<close>).
  The model takes the host's evaluation as a parameter: \<open>host bw sf\<close> is the outcome
  of the expression for a nonzero \<open>bw\<close>. For \<open>bw = 0\<close> the first division,
  \<open>1000 / bw\<close>, raises \<open>ZeroDivisionError\<close> on every host.
\<close>

datatype float_outcome = Holds | Fails | RaisesZeroDivision | RaisesOverflow

type_synonym host_float = "real \<Rightarrow> int \<Rightarrow> float_outcome"

definition low_data_rate_check :: "host_float \<Rightarrow> ulora \<Rightarrow> unit result" where
  "low_data_rate_check host s =
     (let bw = signal_bandwidth (parameters s);
          sf = spreading_factor (parameters s)
      in if bw = 0 then Inl ZeroDivisionError
         else case host bw sf of
           RaisesZeroDivision \<Rightarrow> Inl ZeroDivisionError
         | RaisesOverflow \<Rightarrow> Inl OverflowError
         | Holds \<Rightarrow>
             bindE (read_register s REG_MODEM_CONFIG_3) (\<lambda>r s1.
             write_register s1 REG_MODEM_CONFIG_3 (r OR 0x08))
         | Fails \<Rightarrow> Inr ((), s))"

text \<open>Everything the constructor does after the version check has passed.\<close>

definition configure :: "host_float \<Rightarrow> ulora \<Rightarrow> unit result" where
  "configure host s =
     bindE (sleep s) (\<lambda>_ s.
     bindE (set_frequency s (frequency (parameters s))) (\<lambda>_ s.
     bindE (set_signal_bandwidth s (signal_bandwidth (parameters s))) (\<lambda>_ s.
     bindE (read_register s REG_LNA) (\<lambda>lna s.
     bindE (write_register s REG_LNA (lna OR 0x03)) (\<lambda>_ s.
     bindE (write_register s REG_MODEM_CONFIG_3 0x04) (\<lambda>_ s.
     bindE (set_tx_power s (tx_power_level (parameters s)) PA_OUTPUT_PA_BOOST_PIN) (\<lambda>_ s.
     bindE (set_implicit_header s (implicitHeader (parameters s))) (\<lambda>_ s.
     bindE (set_spreading_factor s (spreading_factor (parameters s))) (\<lambda>_ s.
     bindE (set_coding_rate s (coding_rate (parameters s))) (\<lambda>_ s.
     bindE (set_preamble_length s (preamble_length (parameters s))) (\<lambda>_ s.
     bindE (set_sync_word s (sync_word (parameters s))) (\<lambda>_ s.
     bindE (enable_crc s (enable_CRC (parameters s))) (\<lambda>_ s.
     bindE (invert_iq s (invert_IQ (parameters s))) (\<lambda>_ s.
     bindE (low_data_rate_check host s) (\<lambda>_ s.
     bindE (write_register s REG_FIFO_TX_BASE_ADDR FifoTxBaseAddr) (\<lambda>_ s.
     bindE (write_register s REG_FIFO_RX_BASE_ADDR FifoRxBaseAddr) (\<lambda>_ s.
     standby s)))))))))))))))))"

definition init :: "host_float \<Rightarrow> (nat \<Rightarrow> 8 word) \<Rightarrow> bool \<Rightarrow> overrides \<Rightarrow> unit result" where
  "init host bus has_reset ov =
     bindE (version_loop 5 None (init_state bus has_reset ov)) (\<lambda>version s1.
     if version \<noteq> Some 0x12 then Inl MachineReset
     else configure host s1)"

subsection \<open>Reading the bus log\<close>

text \<open>
  \<open>issued s s'\<close>: the transactions recorded in \<open>s'\<close> after those of \<open>s\<close>.
  A write to register \<open>reg\<close> is an entry whose address byte is \<open>reg | 0x80\<close>, a read
  one whose address byte is \<open>reg & 0x7F\<close> (\<open>write_register\<close>, \<open>read_register\<close>).
\<close>

definition issued :: "ulora \<Rightarrow> ulora \<Rightarrow> (int \<times> int) list" where
  "issued s s' = drop (length (bus_log s)) (bus_log s')"

definition reg_writes :: "int \<Rightarrow> (int \<times> int) list \<Rightarrow> (int \<times> int) list" where
  "reg_writes reg xs = filter (\<lambda>(a, v). a = (reg OR 0x80)) xs"


definition all_writes :: "(int \<times> int) list \<Rightarrow> (int \<times> int) list" where
  "all_writes xs = filter (\<lambda>(a, v). a AND 0x80 \<noteq> 0) xs"

text \<open>\<open>answer s k\<close>: the byte the chip returns to the k-th transaction after state \<open>s\<close>.\<close>

definition answer :: "ulora \<Rightarrow> nat \<Rightarrow> int" where
  "answer s k = uint (spi s (length (bus_log s) + k))"

text \<open>
  \<open>header_setup s sz\<close>: the transactions \<open>received_packet\<close> makes between the IRQ
  poll and the test of the flags (\<open>set_implicit_header(size > 0)\<close>, then the payload
  length when \<open>size > 0\<close>), from a state \<open>s\<close> taken before the poll.
\<close>

definition header_setup :: "ulora \<Rightarrow> int \<Rightarrow> (int \<times> int) list" where
  "header_setup s sz =
     (if implicit_header_mode s \<noteq> Some (sz > 0)
      then [(REG_MODEM_CONFIG_1, 0),
            (REG_MODEM_CONFIG_1 OR 0x80,
             if sz > 0 then answer s 2 OR 0x01 else answer s 2 AND 0xFE)]
      else []) @
     (if sz > 0 then [(REG_PAYLOAD_LENGTH OR 0x80, sz AND 0xFF)] else [])"

text \<open>\<open>sent s m\<close>: the transactions the call with result \<open>m\<close> made from state \<open>s\<close>.\<close>

definition sent :: "ulora \<Rightarrow> 'a result \<Rightarrow> error + (int \<times> int) list" where
  "sent s m = (case m of Inl e \<Rightarrow> Inl e | Inr (x, s') \<Rightarrow> Inr (issued s s'))"

text \<open>A driver object before its first transaction, on a chip with the given answers.\<close>

definition fresh :: "(nat \<Rightarrow> 8 word) \<Rightarrow> ulora" where
  "fresh bus = init_state bus False no_overrides"

text \<open>
  The frequency word held by the three Frf registers, most significant byte first, and
  the frequency in Hz it stands for: \<open>frf * 32_000_000 / 2^19\<close>. One step of the word
  is \<open>32_000_000 / 2^19\<close> Hz, about 61.04 Hz.
\<close>

definition frf_of_bytes :: "int \<Rightarrow> int \<Rightarrow> int \<Rightarrow> int" where
  "frf_of_bytes msb mid lsb = msb * 65536 + mid * 256 + lsb"

definition readback_hz :: "int \<Rightarrow> int \<Rightarrow> int \<Rightarrow> real" where
  "readback_hz msb mid lsb = of_int (frf_of_bytes msb mid lsb) * 32000000 / 2 ^ 19"

definition frequency_step :: real where
  "frequency_step = 32000000 / 2 ^ 19"

text \<open>
  \<open>keeps s s'\<close>: from \<open>s\<close> to \<open>s'\<close> no write to ModemConfig3 was added to the log,
  and the bandwidth and the spreading factor of the parameter table are the same.
\<close>

definition keeps :: "ulora \<Rightarrow> ulora \<Rightarrow> bool" where
  "keeps s s' =
     (reg_writes REG_MODEM_CONFIG_3 (bus_log s') = reg_writes REG_MODEM_CONFIG_3 (bus_log s) \<and>
      signal_bandwidth (parameters s') = signal_bandwidth (parameters s) \<and>
      spreading_factor (parameters s') = spreading_factor (parameters s))"

text \<open>
  The examples. \<open>exact_host\<close> is a host that raises where CPython does for an extreme
  spreading factor and computes the test without rounding otherwise; at the values the
  examples use (bandwidth 0.5 or 125000, spreading factor 6 or 9) every binary
  floating-point host gives the same outcome. \<open>late_chip\<close> answers 0x11 to the first
  transaction and 0x12 to the others; \<open>slow_chip\<close> answers 0 to the first four and 0x12
  to the others. \<open>ex_low_rate\<close> are the default constructor parameters but bandwidth
  0.5 and spreading factor 6.
\<close>

definition exact_host :: host_float where
  "exact_host bw sf =
     (if sf \<ge> 1024 then RaisesOverflow
      else if sf \<le> -1075 then RaisesZeroDivision
      else if 1000 / bw / (2 powi sf) > 16 then Holds else Fails)"

definition late_chip :: "nat \<Rightarrow> 8 word" where
  "late_chip n = (if n = 0 then 0x11 else 0x12)"

definition slow_chip :: "nat \<Rightarrow> 8 word" where
  "slow_chip n = (if n < 4 then 0 else 0x12)"


subsection \<open>Basic facts about the bus\<close>

lemma bindE_simps [simp]:
  "bindE (Inl e) f = Inl e"
  "bindE (Inr (x, s)) f = f x s"
  by (simp_all add: bindE_def)

lemma returned_simps [simp]:
  "returned (Inl e) = Inl e"
  "returned (Inr (x, s)) = Inr x"
  by (simp_all add: returned_def)

lemma and_7F_range: "0 \<le> (a::int) AND 0x7F \<and> a AND 0x7F < 256"
proof -
  have "a AND 0x7F \<le> 0x7F" by (rule AND_upper2) simp
  then show ?thesis by simp
qed

lemma read_register_eq:
  "read_register s a =
     Inr (uint (spi s (length (bus_log s))), s\<lparr>bus_log := bus_log s @ [(a AND 0x7F, 0)]\<rparr>)"
  using and_7F_range [of a] by (simp add: read_register_def transfer_def)

lemma or_80_range: "0 \<le> (a::int) \<Longrightarrow> a < 128 \<Longrightarrow> 0 \<le> a OR 0x80 \<and> a OR 0x80 < 256"
  using OR_upper [of a 8 "0x80"] by simp

lemma write_register_eq:
  "0 \<le> a \<Longrightarrow> a < 128 \<Longrightarrow> 0 \<le> v \<Longrightarrow> v < 256 \<Longrightarrow>
   write_register s a v = Inr ((), s\<lparr>bus_log := bus_log s @ [(a OR 0x80, v)]\<rparr>)"
  using or_80_range [of a] by (simp add: write_register_def transfer_def)

lemma byte_uint [simp]: "0 \<le> uint (w :: 8 word)" "uint (w :: 8 word) < 256"
  using uint_lt2p [of w] by simp_all

lemma byte_or:
  "0 \<le> (x::int) \<Longrightarrow> x < 256 \<Longrightarrow> 0 \<le> y \<Longrightarrow> y < 256 \<Longrightarrow> 0 \<le> x OR y \<and> x OR y < 256"
  using OR_upper [of x 8 y] by simp

lemma byte_and: "0 \<le> (x::int) \<Longrightarrow> x < 256 \<Longrightarrow> 0 \<le> x AND y \<and> x AND y < 256"
  using AND_upper1 [of x y] by simp

section \<open>The header-mode cache\<close>

lemma set_implicit_header_eq:
  "set_implicit_header s x =
     (if implicit_header_mode s \<noteq> Some x then
        Inr ((), s\<lparr>implicit_header_mode := Some x,
                   bus_log := bus_log s @ [(0x1D, 0),
                     (0x9D, if x then answer s 0 OR 0x01 else answer s 0 AND 0xFE)]\<rparr>)
      else Inr ((), s))"
  using byte_or [of "answer s 0" 1] byte_and [of "answer s 0" "0xFE"]
  by (simp add: set_implicit_header_def read_register_eq write_register_eq
      REG_MODEM_CONFIG_1_def answer_def)

text \<open>
  Claim C9. For every boolean \<open>x\<close> and every state of the header cache (unknown, true or
  false), \<open>set_implicit_header x\<close> called twice in a row: the first call succeeds and
  leaves a state \<open>s1\<close>; the second call returns that same state, so it makes no bus
  transaction at all; and the two calls together issue exactly one write to ModemConfig1
  (and one register write in all) when the cache differed from \<open>x\<close>, none when it
  already held \<open>x\<close>.
\<close>

theorem set_implicit_header_twice:
  "\<exists>s1. set_implicit_header s x = Inr ((), s1) \<and>
        set_implicit_header s1 x = Inr ((), s1) \<and>
        length (reg_writes REG_MODEM_CONFIG_1 (issued s s1)) =
          (if implicit_header_mode s = Some x then 0 else 1) \<and>
        length (all_writes (issued s s1)) =
          (if implicit_header_mode s = Some x then 0 else 1)"
  by (simp add: set_implicit_header_eq issued_def reg_writes_def all_writes_def
      REG_MODEM_CONFIG_1_def)

section \<open>Writing a packet body\<close>

lemma issued_app [simp]: "issued s (s\<lparr>bus_log := bus_log s @ xs\<rparr>) = xs"
  by (simp add: issued_def)

lemma sent_simps [simp]:
  "sent s (Inl e) = Inl e"
  "sent s (Inr (x, s')) = Inr (issued s s')"
  by (simp_all add: sent_def)

lemma fresh_simps [simp]:
  "spi (fresh bus) = bus" "bus_log (fresh bus) = []" "implicit_header_mode (fresh bus) = None"
  "parameters (fresh bus) = DEFAULT_PARAMETERS"
  by (simp_all add: fresh_def init_state_def reset_module_def update_parameters_def
      no_overrides_def pick_def)

lemma write_fifo_eq:
  "write_fifo s bs = Inr ((), s\<lparr>bus_log := bus_log s @ map (\<lambda>b. (0x80, uint b)) bs\<rparr>)"
  by (induction bs arbitrary: s) (simp_all add: write_register_eq REG_FIFO_def)

lemma write_buf_eq:
  "write_buf s buffer =
     Inr (min (int (length buffer)) (255 - answer s 0),
          s\<lparr>bus_log := bus_log s @ [(0x22, 0)] @ map (\<lambda>b. (0x80, uint b)) buffer @
                 [(0xA2, answer s 0 + min (int (length buffer)) (255 - answer s 0))]\<rparr>)"
proof -
  have "0 \<le> answer s 0" "answer s 0 < 256" by (simp_all add: answer_def)
  then show ?thesis
    by (simp add: write_buf_def read_register_eq write_fifo_eq write_register_eq Let_def
        REG_PAYLOAD_LENGTH_def MAX_PKT_LENGTH_def FifoTxBaseAddr_def answer_def min_def)
qed

lemma begin_packet_None_eq:
  "begin_packet s None =
     Inr ((), s\<lparr>bus_log := bus_log s @ [(0x81, 0x81), (0x8D, 0), (0xA2, 0)]\<rparr>)"
  by (simp add: begin_packet_def standby_def write_register_eq REG_OP_MODE_def
      MODE_LONG_RANGE_MODE_def MODE_STDBY_def REG_FIFO_ADDR_PTR_def FifoTxBaseAddr_def
      REG_PAYLOAD_LENGTH_def)

text \<open>
  What \<open>write\<close> does for every buffer and every payload length \<open>L\<close> the chip reports:
  it returns \<open>min(len(buffer), 255 - L)\<close>, writes \<open>L\<close> plus that count to the
  payload-length register, and pushes every byte of the buffer into the FIFO register,
  the accepted ones and the others alike.
\<close>

lemma write_buf_pushes_whole_buffer:
  "\<exists>s'. write_buf s buffer = Inr (min (int (length buffer)) (255 - answer s 0), s') \<and>
        reg_writes REG_FIFO (issued s s') = map (\<lambda>b. (0x80, uint b)) buffer \<and>
        reg_writes REG_PAYLOAD_LENGTH (issued s s') =
          [(0xA2, answer s 0 + min (int (length buffer)) (255 - answer s 0))]"
  by (simp add: write_buf_eq reg_writes_def REG_FIFO_def REG_PAYLOAD_LENGTH_def
      filter_map o_def)

text \<open>
  Claim C1, at a failing input. After \<open>begin_packet\<close> on a chip whose payload-length
  register reads 0, \<open>write\<close> of a 256-byte buffer returns 255 and sets the payload
  length to 255, as the claim says, but issues 256 writes to the FIFO register: the
  byte beyond the accepted count is written too.
\<close>

theorem write_buf_overrun:
  "(case begin_packet (fresh (\<lambda>n. 0)) None of
      Inl e \<Rightarrow> False
    | Inr (u, s) \<Rightarrow>
       (case write_buf s (replicate 256 0x41) of
          Inl e \<Rightarrow> False
        | Inr (n, s') \<Rightarrow>
            n = 255 \<and>
            length (reg_writes REG_FIFO (issued s s')) = 256 \<and>
            reg_writes REG_PAYLOAD_LENGTH (issued s s') = [(0xA2, 255)]))"
  by (simp add: begin_packet_None_eq write_buf_eq answer_def issued_def reg_writes_def
      REG_FIFO_def REG_PAYLOAD_LENGTH_def)

section \<open>Polling for a received packet\<close>

lemma and_FF_range: "0 \<le> (a::int) AND 0xFF \<and> a AND 0xFF < 256"
proof -
  have "a AND 0xFF \<le> 0xFF" by (rule AND_upper2) simp
  then show ?thesis by simp
qed

lemma get_irq_flags_eq:
  "get_irq_flags s =
     Inr (answer s 0, s\<lparr>bus_log := bus_log s @ [(0x12, 0), (0x92, answer s 0)]\<rparr>)"
  by (simp add: get_irq_flags_def read_register_eq write_register_eq REG_IRQ_FLAGS_def
      answer_def)

lemma received_packet_eq:
  "received_packet s sz =
     (let mid = header_setup s sz;
          s3 = s\<lparr>implicit_header_mode := Some (sz > 0),
                 bus_log := bus_log s @ [(0x12, 0), (0x92, answer s 0)] @ mid\<rparr>
      in if answer s 0 = 0x40 then Inr (True, s3)
         else if answer s (2 + length mid) \<noteq> 0x86
         then Inr (False, s3\<lparr>bus_log := bus_log s3 @ [(0x01, 0), (0x8D, 0), (0x81, 0x86)]\<rparr>)
         else Inr (False, s3\<lparr>bus_log := bus_log s3 @ [(0x01, 0)]\<rparr>))"
  using and_FF_range [of sz]
  by (cases "implicit_header_mode s")
     (simp_all add: received_packet_def get_irq_flags_eq set_implicit_header_eq
      read_register_eq write_register_eq header_setup_def Let_def
      REG_PAYLOAD_LENGTH_def IRQ_RX_DONE_MASK_def REG_OP_MODE_def MODE_LONG_RANGE_MODE_def
      MODE_RX_SINGLE_def REG_FIFO_ADDR_PTR_def FifoRxBaseAddr_def REG_MODEM_CONFIG_1_def
      answer_def eval_nat_numeral)

text \<open>
  Claim C2, as stated, at a concrete input: the chip reports IRQ flags 0x50 (RX-done
  0x40 together with the valid-header flag 0x10). The RX-done bit is set in the byte
  read, and \<open>received_packet\<close> returns false.
\<close>

theorem received_packet_rx_done_bit_not_enough:
  "(0x50 :: int) AND IRQ_RX_DONE_MASK \<noteq> 0 \<and>
   answer (fresh (\<lambda>n. 0x50)) 0 = 0x50 \<and>
   returned (received_packet (fresh (\<lambda>n. 0x50)) 0) = Inr False"
  by (simp add: received_packet_eq header_setup_def answer_def IRQ_RX_DONE_MASK_def Let_def)

text \<open>
  Claim C2, amended. For every state, every expected size and every IRQ-flags byte
  \<open>v\<close> the chip answers to the poll (\<open>answer s 0\<close>): \<open>received_packet\<close> reads the
  IRQ-flags register and writes \<open>v\<close> back to it, sets up the header mode, and returns
  true exactly when \<open>v\<close> is equal to 0x40 (RX-done and no other flag), with no further
  transaction. For every other \<open>v\<close> it reads the operating mode; if that is not
  single-receive (0x86) it writes the RX base address 0 to the FIFO address pointer
  and 0x86 to the operating mode; and it returns false.
\<close>

theorem received_packet_poll:
  "\<exists>b s'. received_packet s sz = Inr (b, s') \<and>
     b = (answer s 0 = IRQ_RX_DONE_MASK) \<and>
     issued s s' =
       [(REG_IRQ_FLAGS, 0), (REG_IRQ_FLAGS OR 0x80, answer s 0)] @ header_setup s sz @
       (if answer s 0 = IRQ_RX_DONE_MASK then []
        else if answer s (2 + length (header_setup s sz)) \<noteq>
                  (MODE_LONG_RANGE_MODE OR MODE_RX_SINGLE)
        then [(REG_OP_MODE, 0), (REG_FIFO_ADDR_PTR OR 0x80, FifoRxBaseAddr),
              (REG_OP_MODE OR 0x80, MODE_LONG_RANGE_MODE OR MODE_RX_SINGLE)]
        else [(REG_OP_MODE, 0)])"
  by (simp add: received_packet_eq Let_def issued_def IRQ_RX_DONE_MASK_def REG_IRQ_FLAGS_def
      MODE_LONG_RANGE_MODE_def MODE_RX_SINGLE_def REG_OP_MODE_def REG_FIFO_ADDR_PTR_def
      FifoRxBaseAddr_def)

text \<open>
  Claim C10. \<open>get_irq_flags\<close> returns the byte it read and writes that same byte back
  to the IRQ-flags register. Every \<open>received_packet\<close> call starts with this read and
  write-back, whatever it returns, and makes no other write to the IRQ-flags register:
  every flag set in the byte read is set in the byte written back. The caller gets
  only the boolean \<open>v = 0x40\<close>: when the CRC-error flag (0x20) or the RX-timeout
  flag (0x80) is set in the byte read, the call has written it back and returns false.
\<close>

theorem received_packet_consumes_all_flags:
  "get_irq_flags s =
     Inr (answer s 0,
          s\<lparr>bus_log := bus_log s @
             [(REG_IRQ_FLAGS, 0), (REG_IRQ_FLAGS OR 0x80, answer s 0)]\<rparr>) \<and>
   (\<exists>b s' rest. received_packet s sz = Inr (b, s') \<and>
      issued s s' = (REG_IRQ_FLAGS, 0) # (REG_IRQ_FLAGS OR 0x80, answer s 0) # rest \<and>
      reg_writes REG_IRQ_FLAGS (issued s s') = [(REG_IRQ_FLAGS OR 0x80, answer s 0)] \<and>
      b = (answer s 0 = IRQ_RX_DONE_MASK) \<and>
      (answer s 0 AND IRQ_PAYLOAD_CRC_ERROR_MASK \<noteq> 0 \<longrightarrow> \<not> b) \<and>
      (answer s 0 AND IRQ_RX_TIME_OUT_MASK \<noteq> 0 \<longrightarrow> \<not> b))"
proof -
  have a: "answer s 0 AND 0x20 \<noteq> 0 \<Longrightarrow> answer s 0 \<noteq> 0x40"
    and b: "answer s 0 AND 0x80 \<noteq> 0 \<Longrightarrow> answer s 0 \<noteq> 0x40"
    by auto
  show ?thesis
    using a b
    by (simp add: get_irq_flags_eq received_packet_eq Let_def issued_def reg_writes_def
        header_setup_def IRQ_RX_DONE_MASK_def REG_IRQ_FLAGS_def
        IRQ_PAYLOAD_CRC_ERROR_MASK_def IRQ_RX_TIME_OUT_MASK_def REG_MODEM_CONFIG_1_def
        REG_PAYLOAD_LENGTH_def)
qed

text \<open>
  The chip reports RX-done together with a CRC error (0x60): the call writes 0x60 back
  and returns false, as it does for a chip that reports nothing.
\<close>

theorem received_packet_consumes_all_flags_witness:
  "answer (fresh (\<lambda>n. 0x60)) 0 AND IRQ_PAYLOAD_CRC_ERROR_MASK \<noteq> 0 \<and>
   returned (received_packet (fresh (\<lambda>n. 0x60)) 0) = Inr False \<and>
   reg_writes REG_IRQ_FLAGS (bus_log (snd (projr (received_packet (fresh (\<lambda>n. 0x60)) 0))))
     = [(0x92, 0x60)]"
proof -
  have v: "answer (fresh (\<lambda>n. 0x60)) 0 = 0x60"
    by (simp add: answer_def)
  from received_packet_consumes_all_flags [of "fresh (\<lambda>n. 0x60)" 0]
  obtain b s' where r: "received_packet (fresh (\<lambda>n. 0x60)) 0 = Inr (b, s')"
    and w: "reg_writes REG_IRQ_FLAGS (issued (fresh (\<lambda>n. 0x60)) s') =
              [(REG_IRQ_FLAGS OR 0x80, answer (fresh (\<lambda>n. 0x60)) 0)]"
    and c: "answer (fresh (\<lambda>n. 0x60)) 0 AND IRQ_PAYLOAD_CRC_ERROR_MASK \<noteq> 0 \<longrightarrow> \<not> b"
    by blast
  have m: "answer (fresh (\<lambda>n. 0x60)) 0 AND IRQ_PAYLOAD_CRC_ERROR_MASK \<noteq> 0"
    by (simp add: v IRQ_PAYLOAD_CRC_ERROR_MASK_def)
  with c have "\<not> b" by simp
  with r w m show ?thesis
    by (simp add: v issued_def REG_IRQ_FLAGS_def)
qed

section \<open>The frequency word\<close>

lemma set_frequency_eq:
  "set_frequency s f =
     (let frf = push_bit 19 (f + frequency_offset (parameters s)) div 32000000
      in Inr ((), s\<lparr>parameters := (parameters s)\<lparr>frequency := f\<rparr>,
                    bus_log := bus_log s @ [(0x86, drop_bit 16 frf AND 0xFF),
                       (0x87, drop_bit 8 frf AND 0xFF), (0x88, frf AND 0xFF)]\<rparr>))"
  using and_FF_range
  by (simp add: set_frequency_def Let_def write_register_eq REG_FRF_MSB_def REG_FRF_MID_def
      REG_FRF_LSB_def)

lemma three_bytes:
  assumes "0 \<le> (x::int)" "x < 2 ^ 24"
  shows "(drop_bit 16 x AND 0xFF) * 65536 + (drop_bit 8 x AND 0xFF) * 256 + (x AND 0xFF) = x"
proof -
  have m: "(0xFF::int) = mask 8" by (simp add: mask_eq_exp_minus_1)
  have "x div 65536 < 256" using assms by simp
  then have a: "x div 65536 mod 256 = x div 65536" using assms by simp
  have "x = (x div 65536) * 65536 + x mod 65536" by simp
  also have "x mod 65536 = (x mod 65536 div 256) * 256 + x mod 65536 mod 256" by simp
  also have "x mod 65536 mod 256 = x mod 256" by (simp add: mod_mod_cancel)
  also have "x mod 65536 div 256 = x div 256 mod 256"
    using div_exp_mod_exp_eq [of x 8 8] by simp
  finally have "x = (x div 65536 mod 256) * 65536 + (x div 256 mod 256) * 256 + x mod 256"
    using a by simp
  then show ?thesis
    using a by (simp add: m take_bit_eq_mask [symmetric] take_bit_eq_mod drop_bit_eq_div)
qed

lemma div_bounds:
  fixes N q r :: int
  assumes "N = q * 32000000 + r" "0 \<le> r" "r < 32000000"
  shows "q * 32000000 \<le> N" "N < (q + 1) * 32000000"
  using assms by (simp_all add: algebra_simps)

lemma frf_floor:
  fixes F :: int
  defines "frf \<equiv> push_bit 19 F div 32000000"
  shows "frf * 32000000 \<le> F * 524288" and "F * 524288 < (frf + 1) * 32000000"
proof -
  have p: "push_bit 19 F = F * 524288" by (simp add: push_bit_eq_mult)
  have f: "frf = F * 524288 div 32000000"
    by (simp only: frf_def p)
  have d: "F * 524288 = frf * 32000000 + (F * 524288) mod 32000000"
    unfolding f by (rule div_mult_mod_eq [symmetric])
  have lo: "0 \<le> (F * 524288) mod 32000000"
    by (rule pos_mod_sign) simp
  have hi: "(F * 524288) mod 32000000 < 32000000"
    by (rule pos_mod_bound) simp
  show "frf * 32000000 \<le> F * 524288"
    by (rule div_bounds(1) [OF d lo hi])
  show "F * 524288 < (frf + 1) * 32000000"
    by (rule div_bounds(2) [OF d lo hi])
qed

lemma frf_step:
  fixes F :: int
  defines "frf \<equiv> push_bit 19 F div 32000000"
  shows "0 \<le> real_of_int F - real_of_int frf * 32000000 / 2 ^ 19"
    and "real_of_int F - real_of_int frf * 32000000 / 2 ^ 19 < 32000000 / 2 ^ 19"
proof -
  have "real_of_int (frf * 32000000) \<le> real_of_int (F * 524288)"
    unfolding frf_def by (rule of_int_le_iff [THEN iffD2]) (rule frf_floor(1))
  then show "0 \<le> real_of_int F - real_of_int frf * 32000000 / 2 ^ 19"
    by (simp add: field_simps)
  have "real_of_int (F * 524288) < real_of_int ((frf + 1) * 32000000)"
    unfolding frf_def by (rule of_int_less_iff [THEN iffD2]) (rule frf_floor(2))
  then show "real_of_int F - real_of_int frf * 32000000 / 2 ^ 19 < 32000000 / 2 ^ 19"
    by (simp add: field_simps)
qed

lemma frf_range:
  fixes F :: int
  assumes "0 \<le> F" "F < 1024000000"
  shows "0 \<le> push_bit 19 F div 32000000" "push_bit 19 F div 32000000 < 2 ^ 24"
proof -
  have p: "push_bit 19 F = F * 524288" by (simp add: push_bit_eq_mult)
  show "0 \<le> push_bit 19 F div 32000000"
    unfolding p using assms by (simp add: pos_imp_zdiv_nonneg_iff)
  have "push_bit 19 F div 32000000 * 32000000 \<le> F * 524288"
    by (rule frf_floor(1))
  also have "\<dots> < 2 ^ 24 * 32000000" using assms by simp
  finally show "push_bit 19 F div 32000000 < 2 ^ 24" by simp
qed

text \<open>
  Claim C5, as stated, at a concrete input: with a frequency offset of 1 MHz in the
  parameter table, \<open>set_frequency(433000000)\<close> writes the word 0x6C8000, which reads
  back as 434000000 Hz: one million Hz, not one step, away from the argument.
\<close>

theorem set_frequency_offset_shifts_readback:
  "sent (init_state (\<lambda>n. 0) False (no_overrides\<lparr>o_frequency_offset := Some 1000000\<rparr>))
     (set_frequency
        (init_state (\<lambda>n. 0) False (no_overrides\<lparr>o_frequency_offset := Some 1000000\<rparr>))
        433000000)
     = Inr [(0x86, 0x6C), (0x87, 0x80), (0x88, 0x00)] \<and>
   readback_hz 0x6C 0x80 0x00 = 434000000 \<and>
   \<not> \<bar>readback_hz 0x6C 0x80 0x00 - 433000000\<bar> < frequency_step"
  by (simp add: set_frequency_eq init_state_def reset_module_def update_parameters_def
      no_overrides_def pick_def DEFAULT_PARAMETERS_def Let_def readback_hz_def
      frf_of_bytes_def frequency_step_def issued_def)

text \<open>
  Claim C5, amended. Let \<open>F = f + frequency_offset\<close> with \<open>0 \<le> F < 1 024 000 000\<close>
  (the frequencies whose word fits the three registers; the SX127x range, 137 MHz to
  1020 MHz, lies inside). \<open>set_frequency(f)\<close> succeeds and writes three bytes, to
  FrfMsb, FrfMid and FrfLsb in this order, which together are the word
  \<open>frf = (F << 19) // 32_000_000\<close> (a division of non-negative integers, so flooring
  is truncating), and the frequency read back from these bytes is at most \<open>F\<close> and
  less than one step below it. It recovers \<open>f + frequency_offset\<close>, and so \<open>f\<close>
  itself when the offset is 0.
\<close>

theorem set_frequency_readback:
  assumes "0 \<le> f + frequency_offset (parameters s)"
    and "f + frequency_offset (parameters s) < 1024000000"
  shows "\<exists>msb mid lsb s'.
     set_frequency s f = Inr ((), s') \<and>
     issued s s' = [(REG_FRF_MSB OR 0x80, msb), (REG_FRF_MID OR 0x80, mid),
                    (REG_FRF_LSB OR 0x80, lsb)] \<and>
     0 \<le> msb \<and> msb < 256 \<and> 0 \<le> mid \<and> mid < 256 \<and> 0 \<le> lsb \<and> lsb < 256 \<and>
     frf_of_bytes msb mid lsb =
       push_bit 19 (f + frequency_offset (parameters s)) div 32000000 \<and>
     readback_hz msb mid lsb \<le> of_int (f + frequency_offset (parameters s)) \<and>
     of_int (f + frequency_offset (parameters s)) - readback_hz msb mid lsb < frequency_step"
proof -
  define F where "F = f + frequency_offset (parameters s)"
  define frf where "frf = push_bit 19 F div 32000000"
  have r: "0 \<le> frf" "frf < 2 ^ 24"
    unfolding frf_def using frf_range [of F] assms by (simp_all add: F_def)
  have b: "frf_of_bytes (drop_bit 16 frf AND 0xFF) (drop_bit 8 frf AND 0xFF) (frf AND 0xFF) = frf"
    unfolding frf_of_bytes_def by (rule three_bytes [OF r])
  have lo: "0 \<le> real_of_int F - real_of_int frf * 32000000 / 2 ^ 19"
    unfolding frf_def by (rule frf_step(1))
  have hi: "real_of_int F - real_of_int frf * 32000000 / 2 ^ 19 < 32000000 / 2 ^ 19"
    unfolding frf_def by (rule frf_step(2))
  have e: "set_frequency s f =
      Inr ((), s\<lparr>parameters := (parameters s)\<lparr>frequency := f\<rparr>,
                  bus_log := bus_log s @ [(0x86, drop_bit 16 frf AND 0xFF),
                       (0x87, drop_bit 8 frf AND 0xFF), (0x88, frf AND 0xFF)]\<rparr>)"
    by (simp add: set_frequency_eq Let_def frf_def F_def)
  show ?thesis
    unfolding F_def [symmetric] frf_def [symmetric]
    apply (rule exI [of _ "drop_bit 16 frf AND 0xFF"])
    apply (rule exI [of _ "drop_bit 8 frf AND 0xFF"])
    apply (rule exI [of _ "frf AND 0xFF"])
    using lo hi and_FF_range
    by (simp add: e b issued_def readback_hz_def frequency_step_def REG_FRF_MSB_def
        REG_FRF_MID_def REG_FRF_LSB_def)
qed

text \<open>With the default offset 0, 433 MHz is written as 0x6C4000 and read back exactly.\<close>

theorem set_frequency_readback_witness:
  "\<exists>msb mid lsb.
     sent (fresh (\<lambda>n. 0)) (set_frequency (fresh (\<lambda>n. 0)) 433000000) =
       Inr [(0x86, msb), (0x87, mid), (0x88, lsb)] \<and>
     frf_of_bytes msb mid lsb = 7094272 \<and>
     \<bar>readback_hz msb mid lsb - 433000000\<bar> < frequency_step"
proof -
  have h: "0 \<le> 433000000 + frequency_offset (parameters (fresh (\<lambda>n. 0)))"
        "433000000 + frequency_offset (parameters (fresh (\<lambda>n. 0))) < 1024000000"
    by (simp_all add: DEFAULT_PARAMETERS_def)
  from set_frequency_readback [OF h]
  obtain msb mid lsb s' where
    "set_frequency (fresh (\<lambda>n. 0)) 433000000 = Inr ((), s')"
    "issued (fresh (\<lambda>n. 0)) s' = [(REG_FRF_MSB OR 0x80, msb), (REG_FRF_MID OR 0x80, mid),
                    (REG_FRF_LSB OR 0x80, lsb)]"
    "frf_of_bytes msb mid lsb =
       push_bit 19 (433000000 + frequency_offset (parameters (fresh (\<lambda>n. 0)))) div 32000000"
    "readback_hz msb mid lsb
       \<le> of_int (433000000 + frequency_offset (parameters (fresh (\<lambda>n. 0))))"
    "of_int (433000000 + frequency_offset (parameters (fresh (\<lambda>n. 0))))
       - readback_hz msb mid lsb < frequency_step"
    by blast
  then show ?thesis
    by (intro exI [of _ msb] exI [of _ mid] exI [of _ lsb])
       (simp add: DEFAULT_PARAMETERS_def REG_FRF_MSB_def REG_FRF_MID_def REG_FRF_LSB_def
        abs_if)
qed

section \<open>What each configuration setter sends\<close>

lemma low_nibble_mask: "(0x0F::int) = mask 4"
  by (simp add: mask_eq_exp_minus_1)

lemma nibbles:
  assumes "0 \<le> (i::int)" "i < 16"
  shows "0 \<le> (v AND 0x0F) OR push_bit 4 i" "((v AND 0x0F) OR push_bit 4 i) < 256"
    "drop_bit 4 ((v AND 0x0F) OR push_bit 4 i) = i"
    "((v AND 0x0F) OR push_bit 4 i) AND 0x0F = v AND 0x0F"
proof -
  have a: "0 \<le> v AND 0x0F" "v AND 0x0F < 256"
    using AND_upper2 [of "0x0F" v] by simp_all
  have p: "0 \<le> push_bit 4 i" "push_bit 4 i < 256"
    using assms by (simp_all add: push_bit_eq_mult)
  show "0 \<le> (v AND 0x0F) OR push_bit 4 i" "((v AND 0x0F) OR push_bit 4 i) < 256"
    using byte_or [OF a p] by simp_all
  show "drop_bit 4 ((v AND 0x0F) OR push_bit 4 i) = i"
    unfolding low_nibble_mask
    by (simp add: take_bit_eq_mask [symmetric] drop_bit_or drop_bit_take_bit drop_bit_push_bit)
  show "((v AND 0x0F) OR push_bit 4 i) AND 0x0F = v AND 0x0F"
    unfolding low_nibble_mask
    by (simp add: take_bit_eq_mask [symmetric] take_bit_or take_bit_push_bit)
qed

lemma hi_nibble:
  assumes "0 \<le> (i::int)" "i < 16"
  shows "push_bit 4 i AND 0xF0 = push_bit 4 i"
proof -
  have "push_bit 4 i AND 0xF0 = push_bit 4 (i AND 0x0F)"
    by (simp add: push_bit_and)
  also have "i AND 0x0F = i"
  proof -
    have "i AND 0x0F = take_bit 4 i" by (simp add: low_nibble_mask take_bit_eq_mask)
    also have "\<dots> = i" using assms by (simp add: take_bit_int_eq_self)
    finally show ?thesis .
  qed
  finally show ?thesis .
qed

lemma set_signal_bandwidth_eq:
  assumes "0 \<le> bw_index_of b" "bw_index_of b < 16"
  shows "set_signal_bandwidth s b =
     Inr ((), s\<lparr>bus_log := bus_log s @
        [(0x1D, 0), (0x9D, (answer s 0 AND 0x0F) OR push_bit 4 (bw_index_of b))]\<rparr>)"
  using nibbles(1,2) [OF assms, of "answer s 0"]
  by (simp add: set_signal_bandwidth_def Let_def read_register_eq write_register_eq
      REG_MODEM_CONFIG_1_def answer_def)

lemma set_signal_bandwidth_neg:
  assumes "bw_index_of b < 0"
  shows "set_signal_bandwidth s b = Inl ValueError"
  using assms
  by (simp add: set_signal_bandwidth_def Let_def read_register_eq write_register_def
      transfer_def REG_MODEM_CONFIG_1_def)

lemma set_coding_rate_eq:
  "set_coding_rate s d =
     Inr ((), s\<lparr>bus_log := bus_log s @
        [(0x1D, 0), (0x9D, (answer s 0 AND 0xF1) OR push_bit 1 (min (max d 5) 8 - 4))]\<rparr>)"
proof -
  have a: "0 \<le> answer s 0 AND 0xF1" "answer s 0 AND 0xF1 < 256"
    using AND_upper2 [of "0xF1" "answer s 0"] by simp_all
  have p: "0 \<le> push_bit 1 (min (max d 5) 8 - 4)" "push_bit 1 (min (max d 5) 8 - 4) < 256"
    by (simp_all add: push_bit_eq_mult)
  show ?thesis
    using byte_or [OF a p]
    by (simp add: set_coding_rate_def Let_def read_register_eq write_register_eq
        REG_MODEM_CONFIG_1_def answer_def)
qed

lemma set_spreading_factor_eq:
  "set_spreading_factor s sf =
     Inr ((), s\<lparr>bus_log := bus_log s @
        (if min (max sf 6) 12 = 6 then [(0xB1, 0xC5), (0xB7, 0x0C)]
         else [(0xB1, 0xC3), (0xB7, 0x0A)]) @
        [(0x1E, 0), (0x9E, (answer s 2 AND 0x0F) OR push_bit 4 (min (max sf 6) 12))]\<rparr>)"
proof -
  define c where "c = min (max sf 6) 12"
  have r: "0 \<le> c" "c < 16" by (simp_all add: c_def)
  show ?thesis
    unfolding set_spreading_factor_def Let_def c_def [symmetric] hi_nibble [OF r]
    using nibbles(1,2) [OF r, of "answer s 2"]
    by (cases "c = 6")
       (simp_all add: read_register_eq write_register_eq REG_MODEM_CONFIG_2_def
        REG_DETECTION_OPTIMIZE_def REG_DETECTION_THRESHOLD_def answer_def eval_nat_numeral)
qed

lemma enable_crc_eq:
  "enable_crc s en =
     Inr ((), s\<lparr>bus_log := bus_log s @
        [(0x1E, 0), (0x9E, if en then answer s 0 OR 0x04 else answer s 0 AND 0xFB)]\<rparr>)"
  using byte_or [of "answer s 0" 4] byte_and [of "answer s 0" "0xFB"]
  by (simp add: enable_crc_def read_register_eq write_register_eq REG_MODEM_CONFIG_2_def
      answer_def)

lemma invert_iq_eq:
  "invert_iq s iv =
     Inr ((), s\<lparr>parameters := (parameters s)\<lparr>invert_IQ := iv\<rparr>,
        bus_log := bus_log s @
        [(0x33, 0),
         (0xB3, if iv then answer s 0 AND 0xFE AND 0xBF OR 0x40 OR 0x00
                else answer s 0 AND 0xFE AND 0xBF OR 0x00 OR 0x01),
         (0xBB, if iv then 0x19 else 0x1D)]\<rparr>)"
proof -
  have a: "0 \<le> answer s 0 AND 0xFE AND 0xBF" "answer s 0 AND 0xFE AND 0xBF < 256"
    using AND_upper2 [of "0xBF" "answer s 0 AND 0xFE"] by simp_all
  show ?thesis
    using byte_or [OF a, of "0x40"] byte_or [OF a, of "0x01"] a
    by (simp add: invert_iq_def Let_def read_register_eq write_register_eq REG_INVERTIQ_def
        REG_INVERTIQ2_def RFLR_INVERTIQ_TX_MASK_def RFLR_INVERTIQ_RX_MASK_def
        RFLR_INVERTIQ_RX_ON_def RFLR_INVERTIQ_TX_ON_def RFLR_INVERTIQ_RX_OFF_def
        RFLR_INVERTIQ_TX_OFF_def RFLR_INVERTIQ2_ON_def RFLR_INVERTIQ2_OFF_def answer_def)
qed

lemma set_tx_power_eq:
  "set_tx_power s level pin =
     Inr ((), s\<lparr>parameters := (parameters s)\<lparr>tx_power_level := level\<rparr>,
        bus_log := bus_log s @
        [(0x89, if pin = 0 then 0x70 OR min (max level 0) 14
                else 0x80 OR (min (max level 2) 17 - 2))]\<rparr>)"
proof -
  have a: "0 \<le> 0x70 OR min (max level 0) 14 \<and> 0x70 OR min (max level 0) 14 < 256"
    by (rule byte_or) simp_all
  have b: "0 \<le> 0x80 OR (min (max level 2) 17 - 2) \<and> 0x80 OR (min (max level 2) 17 - 2) < 256"
    by (rule byte_or) simp_all
  show ?thesis
    using a b
    by (simp add: set_tx_power_def Let_def write_register_eq REG_PA_CONFIG_def
        PA_OUTPUT_RFO_PIN_def PA_BOOST_def)
qed

lemma set_preamble_length_eq:
  "set_preamble_length s len =
     Inr ((), s\<lparr>bus_log := bus_log s @
        [(0xA0, drop_bit 8 len AND 0xFF), (0xA1, len AND 0xFF)]\<rparr>)"
  using and_FF_range
  by (simp add: set_preamble_length_def write_register_eq REG_PREAMBLE_MSB_def
      REG_PREAMBLE_LSB_def)


section \<open>The bandwidth bin\<close>

lemma bins_loop_bins:
  "bins_loop b 0 bins 7 =
     (if b \<le> 7800 then 0 else if b \<le> 10400 then 1 else if b \<le> 15600 then 2
      else if b \<le> 20800 then 3 else if b \<le> 31250 then 4 else if b \<le> 41700 then 5
      else if b \<le> 62500 then 6 else if b \<le> 125000 then 7 else if b \<le> 250000 then 8
      else 7)"
  by (simp add: bins_def)

lemma bw_index_table:
  assumes "10 \<le> b"
  shows "0 \<le> bw_index_of b" "bw_index_of b \<le> 8"
  using assms by (simp_all add: bw_index_of_def bins_loop_bins)

lemma bw_index_least:
  assumes "10 \<le> b" "b \<le> 250000"
  shows "bins ! nat (bw_index_of b) = Min {x \<in> set bins. b \<le> of_int x}"
proof -
  have i: "bw_index_of b = bins_loop b 0 bins 7"
    using assms by (simp add: bw_index_of_def)
  show ?thesis
    unfolding i bins_loop_bins
    apply (rule Min_eqI [symmetric])
    using assms
    by (auto simp: bins_def)
qed

lemma bw_index_none:
  assumes "250000 < b"
  shows "bw_index_of b = 7" "{x \<in> set bins. b \<le> of_int x} = {}"
  using assms by (auto simp: bw_index_of_def bins_loop_bins bins_def)

lemma bw_index_direct:
  assumes "0 \<le> b" "b < 10"
  shows "bw_index_of b = \<lfloor>b\<rfloor>" "0 \<le> bw_index_of b" "bw_index_of b \<le> 9"
    "(bw_index_of b \<le> 8) = (b < 9)"
  using assms by (simp_all add: bw_index_of_def py_int_def floor_le_iff)

lemma bw_index_range:
  assumes "0 \<le> b"
  shows "0 \<le> bw_index_of b" "bw_index_of b \<le> 9" "(bw_index_of b \<le> 8) = (b < 9 \<or> 10 \<le> b)"
  using assms bw_index_direct [of b] bw_index_table [of b]
  by (cases "b < 10"; simp)+

text \<open>
  Claim C4, as stated, at a concrete input: the request 9 is below 10, so it is taken
  as the bin index itself; the index is 9, outside [0,8], and 0x90 is written to
  ModemConfig1 (the chip answered 0 to the read).
\<close>

theorem bw_index_can_be_9:
  "bw_index_of 9 = 9 \<and> \<not> bw_index_of 9 \<le> 8 \<and>
   sent (fresh (\<lambda>n. 0)) (set_signal_bandwidth (fresh (\<lambda>n. 0)) 9) =
     Inr [(0x1D, 0), (0x9D, 0x90)]"
proof -
  have i: "bw_index_of 9 = 9" by (simp add: bw_index_of_def py_int_def)
  show ?thesis
    by (simp add: i set_signal_bandwidth_eq answer_def issued_def)
qed

text \<open>
  Claim C4, amended. For every bandwidth request \<open>b \<ge> 0\<close>: when \<open>b < 10\<close> the bin
  index is \<open>int(b)\<close>; when \<open>10 \<le> b \<le> 250000\<close> it is the position in the table of the
  smallest entry that is at least \<open>b\<close>; when no entry qualifies it is 7, the 125 kHz
  bin. The index is in [0,9], and in [0,8] exactly when \<open>b < 9\<close> or \<open>b \<ge> 10\<close> (a
  request in [9,10) gives 9). \<open>set_signal_bandwidth\<close> reads ModemConfig1 and writes it
  back with the index in the top nibble and the low nibble as read.
\<close>

theorem set_signal_bandwidth_index:
  assumes "0 \<le> b"
  shows "(b < 10 \<longrightarrow> bw_index_of b = py_int b) \<and>
     (10 \<le> b \<and> b \<le> 250000 \<longrightarrow>
        bw_index_of b < 9 \<and>
        bins ! nat (bw_index_of b) = Min {x \<in> set bins. b \<le> of_int x}) \<and>
     (250000 < b \<longrightarrow> {x \<in> set bins. b \<le> of_int x} = {} \<and> bw_index_of b = 7) \<and>
     0 \<le> bw_index_of b \<and> bw_index_of b \<le> 9 \<and>
     (bw_index_of b \<le> 8) = (b < 9 \<or> 10 \<le> b) \<and>
     (\<exists>w s'. set_signal_bandwidth s b = Inr ((), s') \<and>
        issued s s' = [(REG_MODEM_CONFIG_1, 0), (REG_MODEM_CONFIG_1 OR 0x80, w)] \<and>
        drop_bit 4 w = bw_index_of b \<and>
        w AND 0x0F = answer s 0 AND 0x0F)"
proof -
  have r: "0 \<le> bw_index_of b" "bw_index_of b < 16"
    using bw_index_range(1,2) [OF assms] by simp_all
  have 1: "b < 10 \<longrightarrow> bw_index_of b = py_int b"
    by (simp add: bw_index_of_def)
  have 2: "10 \<le> b \<and> b \<le> 250000 \<longrightarrow>
        bw_index_of b < 9 \<and>
        bins ! nat (bw_index_of b) = Min {x \<in> set bins. b \<le> of_int x}"
    using bw_index_least [of b] bw_index_table(2) [of b] by auto
  have 3: "250000 < b \<longrightarrow> {x \<in> set bins. b \<le> of_int x} = {} \<and> bw_index_of b = 7"
    using bw_index_none [of b] by simp
  have 4: "\<exists>w s'. set_signal_bandwidth s b = Inr ((), s') \<and>
        issued s s' = [(REG_MODEM_CONFIG_1, 0), (REG_MODEM_CONFIG_1 OR 0x80, w)] \<and>
        drop_bit 4 w = bw_index_of b \<and>
        w AND 0x0F = answer s 0 AND 0x0F"
    using nibbles(3,4) [OF r, of "answer s 0"]
    by (simp add: set_signal_bandwidth_eq [OF r] REG_MODEM_CONFIG_1_def)
  show ?thesis
    using 1 2 3 4 bw_index_range [OF assms] by blast
qed

text \<open>A request of 20 kHz selects bin 3, the 20.8 kHz entry; the chip answers 0x12.\<close>

theorem set_signal_bandwidth_index_witness:
  "(0::real) \<le> 20000 \<and> bw_index_of 20000 = 3 \<and> bins ! nat (bw_index_of 20000) = 20800 \<and>
   Min {x \<in> set bins. (20000::real) \<le> of_int x} = 20800 \<and>
   (\<exists>w. sent (fresh (\<lambda>n. 0x12)) (set_signal_bandwidth (fresh (\<lambda>n. 0x12)) 20000) =
          Inr [(0x1D, 0), (0x9D, w)] \<and>
        drop_bit 4 w = 3 \<and> w AND 0x0F = 2)"
proof -
  have i: "bw_index_of 20000 = 3"
    by (simp add: bw_index_of_def bins_loop_bins)
  have h: "(0::real) \<le> 20000" by simp
  note t = set_signal_bandwidth_index [OF h, of "fresh (\<lambda>n. 0x12)"]
  from t have m: "bins ! nat (bw_index_of 20000) = Min {x \<in> set bins. (20000::real) \<le> of_int x}"
    by simp
  from t obtain w s' where
    "set_signal_bandwidth (fresh (\<lambda>n. 0x12)) 20000 = Inr ((), s')"
    "issued (fresh (\<lambda>n. 0x12)) s' = [(REG_MODEM_CONFIG_1, 0), (REG_MODEM_CONFIG_1 OR 0x80, w)]"
    "drop_bit 4 w = bw_index_of 20000"
    "w AND 0x0F = answer (fresh (\<lambda>n. 0x12)) 0 AND 0x0F"
    by blast
  then have "\<exists>w. sent (fresh (\<lambda>n. 0x12)) (set_signal_bandwidth (fresh (\<lambda>n. 0x12)) 20000) =
          Inr [(0x1D, 0), (0x9D, w)] \<and> drop_bit 4 w = 3 \<and> w AND 0x0F = 2"
    by (intro exI [of _ w]) (simp add: i REG_MODEM_CONFIG_1_def answer_def)
  moreover have "bins ! nat (bw_index_of 20000) = 20800"
    by (simp add: i bins_def eval_nat_numeral)
  ultimately show ?thesis
    using m i by simp
qed

section \<open>Out-of-range configuration inputs\<close>



lemma cr_field:
  assumes "1 \<le> (c::int)" "c \<le> 4"
  shows "((v AND 0xF1) OR push_bit 1 c) AND 0x0E = push_bit 1 c"
    "((v AND 0xF1) OR push_bit 1 c) AND 0xF1 = v AND 0xF1"
proof -
  from assms have "c = 1 \<or> c = 2 \<or> c = 3 \<or> c = 4" by auto
  then show "((v AND 0xF1) OR push_bit 1 c) AND 0x0E = push_bit 1 c"
    "((v AND 0xF1) OR push_bit 1 c) AND 0xF1 = v AND 0xF1"
    by (auto simp: bit.conj_disj_distrib2 and.assoc)
qed











section \<open>Read-modify-write of the shared registers\<close>

text \<open>
  Claim C7. The registers that hold more than one configuration field are ModemConfig1
  (bandwidth in bits 7-4, coding rate in bits 3-1, implicit header in bit 0),
  ModemConfig2 (spreading factor in bits 7-4, CRC enable in bit 2) and InvertIQ (bits
  6 and 0 among others). Every setter that writes one of them reads it in the
  transaction just before and writes back a value that agrees with the byte read on
  every bit outside its own field: \<open>set_signal_bandwidth\<close> on the low nibble (when the
  index is negative it raises before any write), \<open>set_coding_rate\<close> on the bits of
  0xF1, \<open>set_implicit_header\<close> on the bits of 0xFE (when it writes at all),
  \<open>set_spreading_factor\<close> on the low nibble, \<open>enable_crc\<close> on the bits of 0xFB,
  \<open>invert_iq\<close> on the bits of 0xBE. \<open>answer s k\<close> is the byte the chip returns to
  the k-th transaction of the call, here the read.
\<close>

theorem shared_register_setters_preserve:
  "(set_signal_bandwidth s b = Inl ValueError \<or>
    (\<exists>w s'. set_signal_bandwidth s b = Inr ((), s') \<and>
       issued s s' = [(REG_MODEM_CONFIG_1, 0), (REG_MODEM_CONFIG_1 OR 0x80, w)] \<and>
       w AND 0x0F = answer s 0 AND 0x0F)) \<and>
   (\<exists>w s'. set_coding_rate s d = Inr ((), s') \<and>
       issued s s' = [(REG_MODEM_CONFIG_1, 0), (REG_MODEM_CONFIG_1 OR 0x80, w)] \<and>
       w AND 0xF1 = answer s 0 AND 0xF1) \<and>
   (\<exists>s'. set_implicit_header s x = Inr ((), s') \<and>
       (issued s s' = [] \<or>
        (\<exists>w. issued s s' = [(REG_MODEM_CONFIG_1, 0), (REG_MODEM_CONFIG_1 OR 0x80, w)] \<and>
           w AND 0xFE = answer s 0 AND 0xFE))) \<and>
   (\<exists>w d1 d2 s'. set_spreading_factor s sf = Inr ((), s') \<and>
       issued s s' = [(REG_DETECTION_OPTIMIZE OR 0x80, d1),
                      (REG_DETECTION_THRESHOLD OR 0x80, d2),
                      (REG_MODEM_CONFIG_2, 0), (REG_MODEM_CONFIG_2 OR 0x80, w)] \<and>
       w AND 0x0F = answer s 2 AND 0x0F) \<and>
   (\<exists>w s'. enable_crc s en = Inr ((), s') \<and>
       issued s s' = [(REG_MODEM_CONFIG_2, 0), (REG_MODEM_CONFIG_2 OR 0x80, w)] \<and>
       w AND 0xFB = answer s 0 AND 0xFB) \<and>
   (\<exists>w w2 s'. invert_iq s iv = Inr ((), s') \<and>
       issued s s' = [(REG_INVERTIQ, 0), (REG_INVERTIQ OR 0x80, w),
                      (REG_INVERTIQ2 OR 0x80, w2)] \<and>
       w AND 0xBE = answer s 0 AND 0xBE)"
proof -
  have bw: "set_signal_bandwidth s b = Inl ValueError \<or>
    (\<exists>w s'. set_signal_bandwidth s b = Inr ((), s') \<and>
       issued s s' = [(REG_MODEM_CONFIG_1, 0), (REG_MODEM_CONFIG_1 OR 0x80, w)] \<and>
       w AND 0x0F = answer s 0 AND 0x0F)"
  proof (cases "bw_index_of b < 0")
    case True
    then show ?thesis by (simp add: set_signal_bandwidth_neg)
  next
    case False
    have "bw_index_of b \<le> 9"
      by (cases "b < 10") (simp_all add: bw_index_of_def py_int_def bins_loop_bins
          floor_le_iff ceiling_le_iff)
    with False have r: "0 \<le> bw_index_of b" "bw_index_of b < 16" by simp_all
    show ?thesis
      using nibbles(4) [OF r, of "answer s 0"]
      by (simp add: set_signal_bandwidth_eq [OF r] REG_MODEM_CONFIG_1_def)
  qed
  have cr: "\<exists>w s'. set_coding_rate s d = Inr ((), s') \<and>
       issued s s' = [(REG_MODEM_CONFIG_1, 0), (REG_MODEM_CONFIG_1 OR 0x80, w)] \<and>
       w AND 0xF1 = answer s 0 AND 0xF1"
  proof -
    have r: "1 \<le> min (max d 5) 8 - 4" "min (max d 5) 8 - 4 \<le> 4" by simp_all
    show ?thesis
      using cr_field(2) [OF r, of "answer s 0"]
      by (simp add: set_coding_rate_eq issued_def REG_MODEM_CONFIG_1_def)
  qed
  have hd: "\<exists>s'. set_implicit_header s x = Inr ((), s') \<and>
       (issued s s' = [] \<or>
        (\<exists>w. issued s s' = [(REG_MODEM_CONFIG_1, 0), (REG_MODEM_CONFIG_1 OR 0x80, w)] \<and>
           w AND 0xFE = answer s 0 AND 0xFE))"
    by (simp add: set_implicit_header_eq issued_def REG_MODEM_CONFIG_1_def
        bit.conj_disj_distrib2 and.assoc)
  have sf: "\<exists>w d1 d2 s'. set_spreading_factor s sf = Inr ((), s') \<and>
       issued s s' = [(REG_DETECTION_OPTIMIZE OR 0x80, d1),
                      (REG_DETECTION_THRESHOLD OR 0x80, d2),
                      (REG_MODEM_CONFIG_2, 0), (REG_MODEM_CONFIG_2 OR 0x80, w)] \<and>
       w AND 0x0F = answer s 2 AND 0x0F"
  proof -
    have r: "0 \<le> min (max sf 6) 12" "min (max sf 6) 12 < 16" by simp_all
    show ?thesis
      using nibbles(4) [OF r, of "answer s 2"]
      by (simp add: set_spreading_factor_eq issued_def REG_MODEM_CONFIG_2_def
          REG_DETECTION_OPTIMIZE_def REG_DETECTION_THRESHOLD_def)
  qed
  have crc: "\<exists>w s'. enable_crc s en = Inr ((), s') \<and>
       issued s s' = [(REG_MODEM_CONFIG_2, 0), (REG_MODEM_CONFIG_2 OR 0x80, w)] \<and>
       w AND 0xFB = answer s 0 AND 0xFB"
    by (simp add: enable_crc_eq issued_def REG_MODEM_CONFIG_2_def
        bit.conj_disj_distrib2 and.assoc)
  have iq: "\<exists>w w2 s'. invert_iq s iv = Inr ((), s') \<and>
       issued s s' = [(REG_INVERTIQ, 0), (REG_INVERTIQ OR 0x80, w),
                      (REG_INVERTIQ2 OR 0x80, w2)] \<and>
       w AND 0xBE = answer s 0 AND 0xBE"
    by (simp add: invert_iq_eq issued_def REG_INVERTIQ_def REG_INVERTIQ2_def
        bit.conj_disj_distrib2 and.assoc)
  show ?thesis
    by (intro conjI bw cr hd sf crc iq)
qed

section \<open>Construction: the version check\<close>

lemma low_data_rate_check_eq:
  "low_data_rate_check host s =
     (if signal_bandwidth (parameters s) = 0 then Inl ZeroDivisionError
      else case host (signal_bandwidth (parameters s)) (spreading_factor (parameters s)) of
        RaisesZeroDivision \<Rightarrow> Inl ZeroDivisionError
      | RaisesOverflow \<Rightarrow> Inl OverflowError
      | Holds \<Rightarrow> Inr ((), s\<lparr>bus_log := bus_log s @ [(0x26, 0), (0xA6, answer s 0 OR 0x08)]\<rparr>)
      | Fails \<Rightarrow> Inr ((), s))"
  using byte_or [of "answer s 0" 8]
  by (simp add: low_data_rate_check_def Let_def read_register_eq write_register_eq
      REG_MODEM_CONFIG_3_def answer_def split: float_outcome.split)

lemma sleep_eq: "sleep s = Inr ((), s\<lparr>bus_log := bus_log s @ [(0x81, 0x80)]\<rparr>)"
  by (simp add: sleep_def write_register_eq REG_OP_MODE_def MODE_LONG_RANGE_MODE_def
      MODE_SLEEP_def)

lemma standby_eq: "standby s = Inr ((), s\<lparr>bus_log := bus_log s @ [(0x81, 0x81)]\<rparr>)"
  by (simp add: standby_def write_register_eq REG_OP_MODE_def MODE_LONG_RANGE_MODE_def
      MODE_STDBY_def)

lemma version_loop_Suc:
  "\<exists>k. 1 \<le> k \<and> k \<le> Suc n \<and>
     version_loop (Suc n) ver s =
       Inr (Some (answer s (k - 1)), s\<lparr>bus_log := bus_log s @ replicate k (0x42, 0)\<rparr>) \<and>
     (\<forall>i. Suc i < k \<longrightarrow> answer s i = 0) \<and>
     (k < Suc n \<longrightarrow> answer s (k - 1) \<noteq> 0)"
proof (induction n arbitrary: ver s)
  case 0
  show ?case
    by (rule exI [of _ 1]) (simp add: read_register_eq REG_VERSION_def answer_def)
next
  case (Suc n)
  let ?s1 = "s\<lparr>bus_log := bus_log s @ [(0x42, 0)]\<rparr>"
  show ?case
  proof (cases "answer s 0 = 0")
    case False
    then show ?thesis
      by (intro exI [of _ 1]) (simp add: read_register_eq REG_VERSION_def answer_def)
  next
    case True
    from Suc.IH [of "Some (answer s 0)" ?s1]
    obtain k where k: "1 \<le> k" "k \<le> Suc n"
      and v: "version_loop (Suc n) (Some (answer s 0)) ?s1 =
        Inr (Some (answer ?s1 (k - 1)), ?s1\<lparr>bus_log := bus_log ?s1 @ replicate k (0x42, 0)\<rparr>)"
      and z: "\<forall>i. Suc i < k \<longrightarrow> answer ?s1 i = 0"
      and e: "k < Suc n \<longrightarrow> answer ?s1 (k - 1) \<noteq> 0"
      by blast
    have a: "\<And>i. answer ?s1 i = answer s (Suc i)"
      by (simp add: answer_def)
    have z': "\<forall>i. Suc i < Suc k \<longrightarrow> answer s i = 0"
    proof (intro allI impI)
      fix i assume "Suc i < Suc k"
      then show "answer s i = 0"
        using True z a by (cases i) auto
    qed
    have e': "Suc k < Suc (Suc n) \<longrightarrow> answer s (Suc k - 1) \<noteq> 0"
      using e k by (simp add: a)
    have "version_loop (Suc (Suc n)) ver s = version_loop (Suc n) (Some (answer s 0)) ?s1"
      using True by (simp add: read_register_eq REG_VERSION_def answer_def)
    also note v
    finally have "version_loop (Suc (Suc n)) ver s =
       Inr (Some (answer s (Suc k - 1)), s\<lparr>bus_log := bus_log s @ replicate (Suc k) (0x42, 0)\<rparr>)"
      using k by (simp add: a)
    with k z' e' show ?thesis
      by (intro exI [of _ "Suc k"]) simp
  qed
qed

lemma nr_bind:
  "m \<noteq> Inl MachineReset \<Longrightarrow> (\<And>x s. f x s \<noteq> Inl MachineReset) \<Longrightarrow>
   bindE m f \<noteq> Inl MachineReset"
  by (cases m) (auto simp: bindE_def)

lemma nr_write: "write_register s a v \<noteq> Inl MachineReset"
  by (simp add: write_register_def transfer_def)

lemma nr_read: "read_register s a \<noteq> Inl MachineReset"
  by (simp add: read_register_eq)

lemma nr_setters:
  "sleep s \<noteq> Inl MachineReset"
  "standby s \<noteq> Inl MachineReset"
  "set_frequency s f \<noteq> Inl MachineReset"
  "set_signal_bandwidth s b \<noteq> Inl MachineReset"
  "set_tx_power s level pin \<noteq> Inl MachineReset"
  "set_implicit_header s x \<noteq> Inl MachineReset"
  "set_spreading_factor s sf \<noteq> Inl MachineReset"
  "set_coding_rate s d \<noteq> Inl MachineReset"
  "set_preamble_length s len \<noteq> Inl MachineReset"
  "set_sync_word s sw \<noteq> Inl MachineReset"
  "enable_crc s en \<noteq> Inl MachineReset"
  "invert_iq s iv \<noteq> Inl MachineReset"
  "low_data_rate_check host s \<noteq> Inl MachineReset"
  by (simp_all add: sleep_eq standby_eq set_frequency_eq Let_def set_signal_bandwidth_def
      read_register_eq nr_write set_tx_power_eq set_implicit_header_eq
      set_spreading_factor_eq set_coding_rate_eq set_preamble_length_eq set_sync_word_def
      enable_crc_eq invert_iq_eq low_data_rate_check_eq split: float_outcome.split)

lemma nr_configure: "configure host s \<noteq> Inl MachineReset"
  unfolding configure_def
  by (intro nr_bind nr_setters nr_write nr_read)

lemma init_state_simps [simp]:
  "spi (init_state bus r ov) = bus" "bus_log (init_state bus r ov) = []"
  "implicit_header_mode (init_state bus r ov) = None"
  "parameters (init_state bus r ov) = update_parameters ov"
  by (simp_all add: init_state_def reset_module_def)

lemma uint_eq_0x12: "(uint (w :: 8 word) = 0x12) = (w = 0x12)"
proof -
  have "uint (0x12 :: 8 word) = 0x12" by simp
  then show ?thesis by (metis word_uint_eq_iff)
qed

text \<open>The state in which the version check leaves the constructor, and the check.\<close>

lemma init_probe:
  "\<exists>k. 1 \<le> k \<and> k \<le> 5 \<and>
     version_loop 5 None (init_state bus r ov) =
       Inr (Some (uint (bus (k - 1))),
            (init_state bus r ov)\<lparr>bus_log := replicate k (0x42, 0)\<rparr>) \<and>
     (\<forall>i. Suc i < k \<longrightarrow> bus i = 0) \<and>
     (k < 5 \<longrightarrow> bus (k - 1) \<noteq> 0) \<and>
     init host bus r ov =
       (if bus (k - 1) \<noteq> 0x12 then Inl MachineReset
        else configure host ((init_state bus r ov)\<lparr>bus_log := replicate k (0x42, 0)\<rparr>))"
proof -
  let ?s0 = "init_state bus r ov"
  have five: "(5::nat) = Suc 4" by simp
  from version_loop_Suc [of 4 None ?s0]
  obtain k where k: "1 \<le> k" "k \<le> 5"
    and v: "version_loop 5 None ?s0 =
       Inr (Some (answer ?s0 (k - 1)), ?s0\<lparr>bus_log := bus_log ?s0 @ replicate k (0x42, 0)\<rparr>)"
    and z: "\<forall>i. Suc i < k \<longrightarrow> answer ?s0 i = 0"
    and e: "k < 5 \<longrightarrow> answer ?s0 (k - 1) \<noteq> 0"
    unfolding five [symmetric] by auto
  let ?s1 = "?s0\<lparr>bus_log := replicate k (0x42, 0)\<rparr>"
  have a: "\<And>i. answer ?s0 i = uint (bus i)" by (simp add: answer_def)
  have z': "\<forall>i. Suc i < k \<longrightarrow> bus i = 0"
    using z by (simp add: a uint_0_iff)
  have e': "k < 5 \<longrightarrow> bus (k - 1) \<noteq> 0"
    using e by (simp add: a uint_0_iff)
  have i: "init host bus r ov =
      (if bus (k - 1) \<noteq> 0x12 then Inl MachineReset else configure host ?s1)"
    using uint_eq_0x12 [of "bus (k - 1)"] by (simp add: init_def v a)
  show ?thesis
    apply (rule exI [of _ k])
    using k z' e' i by (simp add: v a)
qed

text \<open>
  Claim C3, as stated, at a concrete input: the chip answers 0x11 to the first read of
  the version register and 0x12 to every later one. The second of the five polls would
  return 0x12, but the loop stops at the first nonzero byte and the constructor ends in
  \<open>machine.reset()\<close>.
\<close>

theorem init_stops_at_first_nonzero_byte:
  "late_chip 1 = 0x12 \<and>
   init exact_host late_chip False no_overrides = Inl MachineReset"
proof -
  have five: "(5::nat) = Suc 4" by simp
  have "version_loop 5 None (init_state late_chip False no_overrides) =
     Inr (Some 0x11, (init_state late_chip False no_overrides)\<lparr>bus_log := [(0x42, 0)]\<rparr>)"
    by (subst five, subst version_loop.simps)
       (simp add: read_register_eq REG_VERSION_def late_chip_def)
  then show ?thesis
    by (simp add: init_def late_chip_def)
qed

text \<open>
  Claim C3, amended. The constructor reads the version register \<open>k\<close> times, with
  \<open>1 \<le> k \<le> 5\<close>, and makes no other transaction before the check. It polls again only
  after a zero byte: every read but the last returned 0, and when fewer than 5 reads
  were made the last one returned a nonzero byte. The local \<open>version\<close> is the last byte
  read. The constructor ends in \<open>machine.reset()\<close> if and only if that last byte is not
  0x12, which is the case if and only if none of the \<open>k\<close> reads made returned 0x12; a
  nonzero byte other than 0x12 is fatal at once. When the last byte read is 0x12 the
  constructor goes on with the configuration (\<open>configure\<close>), which never ends in
  \<open>machine.reset()\<close>. \<open>bus i\<close> is the byte the chip answers to the i-th read.
\<close>

theorem init_version_check:
  "\<exists>k s1. 1 \<le> k \<and> k \<le> 5 \<and>
     version_loop 5 None (init_state bus r ov) = Inr (Some (uint (bus (k - 1))), s1) \<and>
     bus_log s1 = replicate k (REG_VERSION, 0) \<and>
     (\<forall>i. Suc i < k \<longrightarrow> bus i = 0) \<and>
     (k < 5 \<longrightarrow> bus (k - 1) \<noteq> 0) \<and>
     (init host bus r ov = Inl MachineReset) = (bus (k - 1) \<noteq> 0x12) \<and>
     (init host bus r ov = Inl MachineReset) = (\<forall>i<k. bus i \<noteq> 0x12) \<and>
     (bus (k - 1) = 0x12 \<longrightarrow>
        init host bus r ov = configure host s1 \<and> configure host s1 \<noteq> Inl MachineReset)"
proof -
  from init_probe [of bus r ov host]
  obtain k where k: "1 \<le> k" "k \<le> 5"
    and v: "version_loop 5 None (init_state bus r ov) =
       Inr (Some (uint (bus (k - 1))),
            (init_state bus r ov)\<lparr>bus_log := replicate k (0x42, 0)\<rparr>)"
    and z: "\<forall>i. Suc i < k \<longrightarrow> bus i = 0"
    and e: "k < 5 \<longrightarrow> bus (k - 1) \<noteq> 0"
    and i: "init host bus r ov =
       (if bus (k - 1) \<noteq> 0x12 then Inl MachineReset
        else configure host ((init_state bus r ov)\<lparr>bus_log := replicate k (0x42, 0)\<rparr>))"
    by blast
  let ?s1 = "(init_state bus r ov)\<lparr>bus_log := replicate k (0x42, 0)\<rparr>"
  have last: "(\<forall>i<k. bus i \<noteq> 0x12) = (bus (k - 1) \<noteq> 0x12)"
  proof
    assume "\<forall>i<k. bus i \<noteq> 0x12"
    with k show "bus (k - 1) \<noteq> 0x12" by simp
  next
    assume n: "bus (k - 1) \<noteq> 0x12"
    show "\<forall>i<k. bus i \<noteq> 0x12"
    proof (intro allI impI)
      fix i assume "i < k"
      then have "i = k - 1 \<or> Suc i < k" by auto
      then show "bus i \<noteq> 0x12" using n z by auto
    qed
  qed
  show ?thesis
    apply (rule exI [of _ k])
    apply (rule exI [of _ ?s1])
    using k z e nr_configure [of host ?s1]
    by (auto simp: v i last REG_VERSION_def)
qed

text \<open>
  A chip that answers 0 four times and then 0x12 is polled five times and passes the
  check.
\<close>

theorem init_version_check_witness:
  "slow_chip 4 = 0x12 \<and>
   init exact_host slow_chip False no_overrides \<noteq> Inl MachineReset \<and>
   (\<exists>s1. version_loop 5 None (init_state slow_chip False no_overrides) = Inr (Some 0x12, s1) \<and>
      bus_log s1 = replicate 5 (REG_VERSION, 0))"
proof -
  from init_version_check [of slow_chip False no_overrides exact_host]
  obtain k s1 where k: "1 \<le> k" "k \<le> 5"
    and v: "version_loop 5 None (init_state slow_chip False no_overrides) =
       Inr (Some (uint (slow_chip (k - 1))), s1)"
    and l: "bus_log s1 = replicate k (REG_VERSION, 0)"
    and e: "k < 5 \<longrightarrow> slow_chip (k - 1) \<noteq> 0"
    and i: "(init exact_host slow_chip False no_overrides = Inl MachineReset) =
       (slow_chip (k - 1) \<noteq> 0x12)"
    by (elim exE conjE) (rule that)
  have "\<not> k < 5"
  proof
    assume "k < 5"
    with e k show False by (auto simp: slow_chip_def split: if_splits)
  qed
  with k have k5: "k = 5" by simp
  show ?thesis
    using v l i unfolding k5 by (simp add: slow_chip_def)
qed

section \<open>Low data rate optimization\<close>



lemma keeps_refl: "keeps s s"
  by (simp add: keeps_def)











lemmas eval_configure = configure_def DEFAULT_PARAMETERS_def
  sleep_eq standby_eq set_frequency_eq set_signal_bandwidth_eq
  set_tx_power_eq set_implicit_header_eq set_spreading_factor_eq set_coding_rate_eq
  set_preamble_length_eq enable_crc_eq invert_iq_eq low_data_rate_check_eq read_register_eq
  write_register_eq set_sync_word_def Let_def reg_writes_def answer_def ulora_consts

lemma version_loop_on_0x12:
  "version_loop 5 None (init_state (\<lambda>n. 0x12) False ov) =
   Inr (Some 0x12, (init_state (\<lambda>n. 0x12) False ov)\<lparr>bus_log := [(0x42, 0)]\<rparr>)"
proof -
  have five: "(5::nat) = Suc 4" by simp
  show ?thesis
    by (subst five, subst version_loop.simps) (simp add: read_register_eq REG_VERSION_def)
qed

lemma bw_index_125k: "bw_index_of 125000 = 7"
  by (simp add: bw_index_of_def bins_loop_bins)


lemma bw_index_zero: "bw_index_of 0 = 0"
  by (simp add: bw_index_of_def py_int_def)





lemma init_zero_bandwidth_raises:
  "init host (\<lambda>n. 0x12) False (no_overrides\<lparr>o_signal_bandwidth := Some 0\<rparr>) =
     Inl ZeroDivisionError"
  using bw_index_zero
  by (simp add: init_def version_loop_on_0x12 update_parameters_def no_overrides_def pick_def
      eval_configure)

text \<open>
  On a host that raises as CPython does, a spreading factor of 1024 among the
  construction parameters ends the constructor in \<open>OverflowError\<close>.
\<close>

lemma init_spreading_factor_1024_raises:
  "init exact_host (\<lambda>n. 0x12) False (no_overrides\<lparr>o_spreading_factor := Some 1024\<rparr>) =
     Inl OverflowError"
  by (simp add: init_def version_loop_on_0x12 update_parameters_def no_overrides_def pick_def
      eval_configure bw_index_125k exact_host_def)




end
